theory Spec2Isabelle
  imports Main "HOL-Library.Word" "HOL-Library.Multiset" "HOL-Library.Sublist"
begin

section \<open>grblHAL reporting: real-time status line and settings catalogue\<close>

text \<open>
  The development embeds three pieces of the repository:
  \<^item> \<open>report_realtime_status\<close> of report.c, with the two refresh counters and the
    dirty flags \<open>sys.report\<close> as explicit state, and the stream as the list of the strings
    handed to \<open>hal.stream.write_all\<close>, in order;
  \<^item> the settings-details enumeration of report.c (\<open>sort_settings_details\<close>,
    \<open>print_settings_details\<close>, \<open>report_settings_details\<close>);
  \<^item> the hook installation of the odometer plugin (odometer.c).

  The build modelled is the default one: \<open>N_AXIS = 3\<close> (no \<open>A_AXIS\<close>, \<open>B_AXIS\<close>,
  \<open>C_AXIS\<close>), \<open>COMPATIBILITY_LEVEL = 0\<close>, and the refresh constants of report.c.
  Floating-point values are kept abstract: they are a type parameter \<open>'f\<close>, and the
  operations on them (formatting through the function pointers \<open>get_axis_values\<close> and
  \<open>get_rate_value\<close>, subtraction, \<open>lroundf\<close>) are fields of the environment.
\<close>

subsection \<open>Strings and numbers\<close>

definition ASCII_EOL :: string where
  "ASCII_EOL = [CHR 0x0D, CHR 0x0A]"

text \<open>
  Modelled from the spec: \<open>uitoa\<close> (nuts\_bolts.c) is not among the source files. It is
  the unsigned 32-bit to decimal conversion whose results the spec shows (\<open>Hold:1\<close>,
  \<open>$30\<close>, \<open>$100\<close>): the decimal digits of the value, most significant first, no padding.
  \<open>digit_char\<close> and \<open>uitoa_nat\<close> are its parts.
\<close>

definition digit_char :: "nat \<Rightarrow> char" where
  "digit_char d = ''0123456789'' ! d"

fun uitoa_nat :: "nat \<Rightarrow> string" where
  "uitoa_nat n = (if n < 10 then [digit_char n] else uitoa_nat (n div 10) @ [digit_char (n mod 10)])"

declare uitoa_nat.simps [simp del]

definition uitoa :: "32 word \<Rightarrow> string" where
  "uitoa w = uitoa_nat (unat w)"

text \<open>\<open>appendbuf\<close> copies its arguments one after the other into the static buffer.\<close>

definition appendbuf :: "string list \<Rightarrow> string" where
  "appendbuf args = concat args"

subsection \<open>Machine state and configuration\<close>

text \<open>
  Modelled from the spec: the \<open>STATE_*\<close> constants of system.h are not among the source
  files. The machine state is the spec's fixed enumeration; its constructors are the case
  labels of the switch in \<open>report_realtime_status\<close>.
\<close>

datatype sys_state =
    STATE_IDLE | STATE_ALARM | STATE_CHECK_MODE | STATE_HOMING | STATE_CYCLE | STATE_HOLD
  | STATE_JOG | STATE_SAFETY_DOOR | STATE_SLEEP | STATE_ESTOP | STATE_TOOL_CHANGE

text \<open>\<open>state_get() & (STATE_HOMING|STATE_CYCLE|STATE_HOLD|STATE_JOG|STATE_SAFETY_DOOR)\<close>\<close>

definition active_state :: "sys_state \<Rightarrow> bool" where
  "active_state s = (s = STATE_HOMING \<or> s = STATE_CYCLE \<or> s = STATE_HOLD \<or> s = STATE_JOG
     \<or> s = STATE_SAFETY_DOOR)"

datatype probing_state = Probing_Off | Probing_Active

datatype machine_mode = Mode_Standard | Mode_Laser | Mode_Lathe

text \<open>\<open>settings.status_report\<close>\<close>

record status_report_flags =
  sr_machine_position :: bool
  sr_buffer_state :: bool
  sr_line_numbers :: bool
  sr_feed_speed :: bool
  sr_pin_state :: bool
  sr_work_coord_offset :: bool
  sr_overrides :: bool
  sr_parser_state :: bool
  sr_alarm_substate :: bool
  sr_run_substate :: bool

text \<open>
  \<open>sys.report\<close>: the dirty flags. The C type is a union of the bit-field with the word
  \<open>value\<close>; \<open>rpt_other\<close> stands for the bits of the word that report.c does not read by
  name, and \<open>rpt_value\<close> is the test \<open>sys.report.value != 0\<close>.
\<close>

record report_tracking_flags =
  rpt_mpg_mode :: bool
  rpt_scaling :: bool
  rpt_homed :: bool
  rpt_xmode :: bool
  rpt_spindle :: bool
  rpt_coolant :: bool
  rpt_overrides :: bool
  rpt_tool :: bool
  rpt_wco :: bool
  rpt_gwco :: bool
  rpt_tool_offset :: bool
  rpt_tlo_reference :: bool
  rpt_all :: bool
  rpt_other :: bool

definition rpt_value :: "report_tracking_flags \<Rightarrow> bool" where
  "rpt_value r = (rpt_mpg_mode r \<or> rpt_scaling r \<or> rpt_homed r \<or> rpt_xmode r \<or> rpt_spindle r
     \<or> rpt_coolant r \<or> rpt_overrides r \<or> rpt_tool r \<or> rpt_wco r \<or> rpt_gwco r
     \<or> rpt_tool_offset r \<or> rpt_tlo_reference r \<or> rpt_all r \<or> rpt_other r)"

text \<open>\<open>sys.report.value = 0\<close>\<close>

definition rpt_clear :: report_tracking_flags where
  "rpt_clear = \<lparr> rpt_mpg_mode = False, rpt_scaling = False, rpt_homed = False, rpt_xmode = False,
     rpt_spindle = False, rpt_coolant = False, rpt_overrides = False, rpt_tool = False,
     rpt_wco = False, rpt_gwco = False, rpt_tool_offset = False, rpt_tlo_reference = False,
     rpt_all = False, rpt_other = False \<rparr>"

record probe_state =
  prb_triggered :: bool
  prb_connected :: bool

text \<open>\<open>axes_signals_t\<close> as read through its bits; \<open>ax_rest\<close> is any bit above Z.\<close>

record axes_signals =
  ax_x :: bool
  ax_y :: bool
  ax_z :: bool
  ax_rest :: bool

definition ax_value :: "axes_signals \<Rightarrow> bool" where
  "ax_value a = (ax_x a \<or> ax_y a \<or> ax_z a \<or> ax_rest a)"

text \<open>\<open>control_signals_t\<close>; \<open>ctl_other\<close> is any bit report.c does not read by name.\<close>

record control_signals =
  ctl_reset :: bool
  ctl_feed_hold :: bool
  ctl_cycle_start :: bool
  ctl_safety_door_ajar :: bool
  ctl_block_delete :: bool
  ctl_stop_disable :: bool
  ctl_e_stop :: bool
  ctl_motor_warning :: bool
  ctl_motor_fault :: bool
  ctl_limits_override :: bool
  ctl_other :: bool

definition ctl_value :: "control_signals \<Rightarrow> bool" where
  "ctl_value c = (ctl_reset c \<or> ctl_feed_hold c \<or> ctl_cycle_start c \<or> ctl_safety_door_ajar c
     \<or> ctl_block_delete c \<or> ctl_stop_disable c \<or> ctl_e_stop c \<or> ctl_motor_warning c
     \<or> ctl_motor_fault c \<or> ctl_limits_override c \<or> ctl_other c)"

record spindle_state =
  sp_on :: bool
  sp_ccw :: bool
  sp_encoder_error :: bool

record coolant_state =
  cl_flood :: bool
  cl_mist :: bool
  cl_rest :: bool

definition cl_value :: "coolant_state \<Rightarrow> bool" where
  "cl_value c = (cl_flood c \<or> cl_mist c \<or> cl_rest c)"

text \<open>The fields of \<open>sys\<close> that the status report reads.\<close>

record 'f sys_t =
  sys_probing_state :: probing_state
  sys_feed_hold_pending :: bool
  sys_holding_state :: "32 word"
  sys_alarm :: "32 word"
  sys_parking_state :: "32 word"
  sys_block_delete_enabled :: bool
  sys_optional_stop_disable :: bool
  sys_spindle_rpm :: 'f
  sys_override_feed_rate :: "32 word"
  sys_override_rapid_rate :: "32 word"
  sys_override_spindle_rpm :: "32 word"
  sys_mpg_mode :: bool
  sys_homing_mask :: "8 word"
  sys_homed_mask :: "8 word"
  sys_tlo_reference_set_mask :: "8 word"

text \<open>The fields of \<open>gc_state\<close> (and the results of \<open>gc_get_offset\<close>, \<open>gc_get_g51_state\<close>).\<close>

record 'f gc_t =
  gc_tool_change :: bool
  gc_diameter_mode :: bool
  gc_coord_system_id :: "8 word"
  gc_tool :: "32 word"
  gc_get_offset :: "'f list"
  gc_get_g51_state :: axes_signals

text \<open>
  What the HAL and the planner return during one call. A function pointer that may be
  \<open>NULL\<close> is an option. \<open>hal.spindle.get_state\<close>, \<open>hal.control.get_state\<close>,
  \<open>hal.coolant.get_state\<close> and \<open>state_get\<close> are called more than once in the function;
  each is taken to return the same value throughout one call.
\<close>

record 'f hal_t =
  hal_probe_get_state :: "probe_state option"
  plan_block_buffer_available :: "32 word"
  hal_rx_buffer_available :: "32 word"
  plan_current_block_line :: "32 word option"
  hal_spindle_get_state :: spindle_state
  hal_spindle_get_data_rpm :: "'f option"
  st_realtime_rate :: 'f
  hal_limits_get_state :: axes_signals
  hal_control_get_state :: control_signals
  hal_coolant_get_state :: coolant_state
  cap_variable_spindle :: bool
  cap_mpg_mode :: bool
  cap_spindle_sync :: bool
  cap_safety_door_ajar :: bool
  cap_stop_disable :: bool

text \<open>The float operations and the formatters chosen by \<open>report_init\<close>.\<close>

record 'f fmt_t =
  get_axis_values :: "'f list \<Rightarrow> string"
  get_rate_value :: "'f \<Rightarrow> string"
  lroundf :: "'f \<Rightarrow> 32 word"
  fsub :: "'f \<Rightarrow> 'f \<Rightarrow> 'f"

text \<open>
  Everything one call reads. \<open>env_mpos\<close> is \<open>print_position\<close> after
  \<open>system_convert_array_steps_to_mpos\<close>; \<open>on_realtime_report\<close> is the extension callback,
  as the list of strings it writes given \<open>sys.report\<close>.
\<close>

record 'f env =
  env_state :: sys_state
  env_sr :: status_report_flags
  env_sys :: "'f sys_t"
  env_gc :: "'f gc_t"
  env_hal :: "'f hal_t"
  env_fmt :: "'f fmt_t"
  env_mpos :: "'f list"
  env_homing_single_axis :: bool
  env_homing_manual :: bool
  env_mode :: machine_mode
  on_realtime_report :: "(report_tracking_flags \<Rightarrow> string list) option"

text \<open>
  What persists between calls: the two static counters of report.c, the static
  \<open>probing\<close> latch of \<open>report_realtime_status\<close>, and \<open>sys.report\<close>.
\<close>

record report_static =
  wco_counter :: "8 word"
  override_counter :: "8 word"
  probing :: bool
  sys_report :: report_tracking_flags

subsection \<open>The status report\<close>

definition probe_state_of :: "'f env \<Rightarrow> probe_state" where
  "probe_state_of e = (case hal_probe_get_state (env_hal e) of
       None \<Rightarrow> \<lparr> prb_triggered = False, prb_connected = True \<rparr>
     | Some p \<Rightarrow> p)"

text \<open>\<open>gc_state.tool_change && state == STATE_CYCLE ? STATE_TOOL_CHANGE : state\<close>\<close>

definition display_state :: "'f env \<Rightarrow> sys_state" where
  "display_state e = (if gc_tool_change (env_gc e) \<and> env_state e = STATE_CYCLE
     then STATE_TOOL_CHANGE else env_state e)"

text \<open>The update of the static \<open>probing\<close> latch in the \<open>STATE_CYCLE\<close> case.\<close>

definition probing_latch :: "'f env \<Rightarrow> bool \<Rightarrow> bool" where
  "probing_latch e p =
     (if sys_probing_state (env_sys e) = Probing_Active \<and> sr_run_substate (env_sr e) then True
      else if p then prb_triggered (probe_state_of e)
      else p)"

text \<open>
  The switch on the displayed state: the new value of \<open>probing\<close> and the strings written.
\<close>

definition report_state :: "'f env \<Rightarrow> report_tracking_flags \<Rightarrow> bool \<Rightarrow> bool \<times> string list" where
  "report_state e rpt p = (case display_state e of
       STATE_IDLE \<Rightarrow> (p, [''Idle''])
     | STATE_CYCLE \<Rightarrow>
         (let p' = probing_latch e p in
          (p', [''Run''] @ (if sys_feed_hold_pending (env_sys e) then ['':1'']
                            else if p' then ['':2''] else [])))
     | STATE_HOLD \<Rightarrow> (p, [appendbuf [''Hold:'', uitoa (sys_holding_state (env_sys e) - 1)]])
     | STATE_JOG \<Rightarrow> (p, [''Jog''])
     | STATE_HOMING \<Rightarrow> (p, [''Home''])
     | STATE_ESTOP \<Rightarrow>
         (p, if (rpt_all rpt \<or> sr_alarm_substate (env_sr e)) \<and> sys_alarm (env_sys e) \<noteq> 0
             then [appendbuf [''Alarm:'', uitoa (sys_alarm (env_sys e))]] else [''Alarm''])
     | STATE_ALARM \<Rightarrow>
         (p, if (rpt_all rpt \<or> sr_alarm_substate (env_sr e)) \<and> sys_alarm (env_sys e) \<noteq> 0
             then [appendbuf [''Alarm:'', uitoa (sys_alarm (env_sys e))]] else [''Alarm''])
     | STATE_CHECK_MODE \<Rightarrow> (p, [''Check''])
     | STATE_SAFETY_DOOR \<Rightarrow> (p, [appendbuf [''Door:'', uitoa (sys_parking_state (env_sys e))]])
     | STATE_SLEEP \<Rightarrow> (p, [''Sleep''])
     | STATE_TOOL_CHANGE \<Rightarrow> (p, [''Tool'']))"

text \<open>
  The work coordinate offset and the position printed. The C code fills \<open>wco\<close> only when
  \<open>!machine_position || sys.report.wco\<close> and reads it only under \<open>sys.report.wco\<close>; the
  model computes it always.
\<close>

definition wco_of :: "'f env \<Rightarrow> 'f list" where
  "wco_of e = gc_get_offset (env_gc e)"

definition print_position :: "'f env \<Rightarrow> 'f list" where
  "print_position e = (if sr_machine_position (env_sr e) then env_mpos e
     else map2 (fsub (env_fmt e)) (env_mpos e) (wco_of e))"

definition report_position :: "'f env \<Rightarrow> string list" where
  "report_position e =
     [if sr_machine_position (env_sr e) then ''|MPos:'' else ''|WPos:'',
      get_axis_values (env_fmt e) (print_position e)]"

definition report_buffer :: "'f env \<Rightarrow> string list" where
  "report_buffer e = (if sr_buffer_state (env_sr e)
     then [''|Bf:'', uitoa (plan_block_buffer_available (env_hal e)), '','',
           uitoa (hal_rx_buffer_available (env_hal e))]
     else [])"

text \<open>\<open>cur_block != NULL && cur_block->line_number > 0\<close>, the line number an \<open>int32_t\<close>.\<close>

definition report_line_number :: "'f env \<Rightarrow> string list" where
  "report_line_number e = (if sr_line_numbers (env_sr e)
     then (case plan_current_block_line (env_hal e) of
             None \<Rightarrow> []
           | Some ln \<Rightarrow> if 0 < sint ln then [appendbuf [''|Ln:'', uitoa ln]] else [])
     else [])"

definition report_feed_speed :: "'f env \<Rightarrow> string list" where
  "report_feed_speed e = (if sr_feed_speed (env_sr e)
     then (if cap_variable_spindle (env_hal e)
           then [appendbuf [''|FS:'', get_rate_value (env_fmt e) (st_realtime_rate (env_hal e))],
                 appendbuf ['','', uitoa (if sp_on (hal_spindle_get_state (env_hal e))
                                          then lroundf (env_fmt e) (sys_spindle_rpm (env_sys e))
                                          else 0)]]
                @ (case hal_spindle_get_data_rpm (env_hal e) of
                     None \<Rightarrow> []
                   | Some rpm \<Rightarrow> [appendbuf ['','', uitoa (lroundf (env_fmt e) rpm)]])
           else [appendbuf [''|F:'', get_rate_value (env_fmt e) (st_realtime_rate (env_hal e))]])
     else [])"

definition axis_signals_tostring :: "axes_signals \<Rightarrow> string" where
  "axis_signals_tostring a = (if ax_x a then ''X'' else []) @ (if ax_y a then ''Y'' else [])
     @ (if ax_z a then ''Z'' else [])"

text \<open>The letters appended after \<open>|Pn:\<close>.\<close>

definition pin_letters :: "'f env \<Rightarrow> string" where
  "pin_letters e =
     (let lim = hal_limits_get_state (env_hal e);
          ctrl = hal_control_get_state (env_hal e);
          probe = probe_state_of e
      in (if prb_triggered probe then ''P'' else [])
       @ (if \<not> prb_connected probe then ''O'' else [])
       @ (if ax_value lim \<and> \<not> ctl_limits_override ctrl then axis_signals_tostring lim else [])
       @ (if ctl_value ctrl
          then (if ctl_safety_door_ajar ctrl \<and> cap_safety_door_ajar (env_hal e) then ''D'' else [])
             @ (if ctl_reset ctrl then ''R'' else [])
             @ (if ctl_feed_hold ctrl then ''H'' else [])
             @ (if ctl_cycle_start ctrl then ''S'' else [])
             @ (if ctl_e_stop ctrl then ''E'' else [])
             @ (if ctl_block_delete ctrl \<and> sys_block_delete_enabled (env_sys e) then ''L'' else [])
             @ (if (if cap_stop_disable (env_hal e) then ctl_stop_disable ctrl
                    else sys_optional_stop_disable (env_sys e)) then ''T'' else [])
             @ (if ctl_motor_warning ctrl then ''W'' else [])
             @ (if ctl_motor_fault ctrl then ''M'' else [])
          else []))"

definition report_pin_state :: "'f env \<Rightarrow> string list" where
  "report_pin_state e = (if sr_pin_state (env_sr e)
     then (if ax_value (hal_limits_get_state (env_hal e)) \<or> ctl_value (hal_control_get_state (env_hal e))
              \<or> prb_triggered (probe_state_of e) \<or> \<not> prb_connected (probe_state_of e)
              \<or> sys_block_delete_enabled (env_sys e)
           then [''|Pn:'' @ pin_letters e] else [])
     else [])"

subsection \<open>The refresh counters and the fields they force\<close>

definition REPORT_OVERRIDE_REFRESH_BUSY_COUNT :: nat where
  "REPORT_OVERRIDE_REFRESH_BUSY_COUNT = 20"

definition REPORT_OVERRIDE_REFRESH_IDLE_COUNT :: nat where
  "REPORT_OVERRIDE_REFRESH_IDLE_COUNT = 10"

definition REPORT_WCO_REFRESH_BUSY_COUNT :: nat where
  "REPORT_WCO_REFRESH_BUSY_COUNT = 30"

definition REPORT_WCO_REFRESH_IDLE_COUNT :: nat where
  "REPORT_WCO_REFRESH_IDLE_COUNT = 10"

text \<open>
  The interval a counter is reloaded from: the busy count when the state is one of the
  active states, the idle count otherwise.
\<close>

definition wco_interval :: "bool \<Rightarrow> nat" where
  "wco_interval busy = (if busy then REPORT_WCO_REFRESH_BUSY_COUNT
     else REPORT_WCO_REFRESH_IDLE_COUNT)"

definition override_interval :: "bool \<Rightarrow> nat" where
  "override_interval busy = (if busy then REPORT_OVERRIDE_REFRESH_BUSY_COUNT
     else REPORT_OVERRIDE_REFRESH_IDLE_COUNT)"

text \<open>The block under \<open>if(settings.status_report.work_coord_offset)\<close>.\<close>

definition wco_step :: "'f env \<Rightarrow> report_static \<Rightarrow> report_static" where
  "wco_step e st =
     (if sr_work_coord_offset (env_sr e)
      then (if 0 < wco_counter st \<and> \<not> rpt_wco (sys_report st)
            then st\<lparr>wco_counter := wco_counter st - 1\<rparr>
            else st\<lparr>wco_counter := of_nat (wco_interval (active_state (env_state e)) - 1)\<rparr>)
      else st\<lparr>sys_report := (sys_report st)\<lparr>rpt_wco := False\<rparr>\<rparr>)"

text \<open>The block under \<open>if(settings.status_report.overrides)\<close>.\<close>

definition override_step :: "'f env \<Rightarrow> report_static \<Rightarrow> report_static" where
  "override_step e st =
     (if sr_overrides (env_sr e)
      then (if 0 < override_counter st \<and> \<not> rpt_overrides (sys_report st)
            then st\<lparr>override_counter := override_counter st - 1\<rparr>
            else st\<lparr>sys_report := (sys_report st)
                       \<lparr>rpt_overrides := True,
                        rpt_spindle := rpt_spindle (sys_report st)
                           \<or> sp_on (hal_spindle_get_state (env_hal e)),
                        rpt_coolant := rpt_coolant (sys_report st)
                           \<or> cl_value (hal_coolant_get_state (env_hal e))\<rparr>,
                     override_counter := of_nat (override_interval (active_state (env_state e)) - 1)\<rparr>)
      else st\<lparr>sys_report := (sys_report st)\<lparr>rpt_overrides := False\<rparr>\<rparr>)"

text \<open>\<open>map_coord_system\<close>: \<open>g5x\<close> is a \<open>uint8_t\<close>.\<close>

definition map_coord_system :: "8 word \<Rightarrow> string" where
  "map_coord_system cid =
     (let g5x = cid + 54 :: 8 word
      in uitoa (ucast (if 59 < g5x then 59 else g5x))
         @ (if 59 < g5x then ''.'' @ uitoa (ucast (g5x - 59)) else []))"

definition AXES_BITMASK :: "8 word" where
  "AXES_BITMASK = 7"

definition activity_letters :: "'f env \<Rightarrow> report_tracking_flags \<Rightarrow> string" where
  "activity_letters e rpt =
     (let sp = hal_spindle_get_state (env_hal e); cl = hal_coolant_get_state (env_hal e)
      in (if sp_on sp then (if sp_ccw sp then ''C'' else ''S'') else [])
       @ (if sp_encoder_error sp \<and> cap_spindle_sync (env_hal e) then ''E'' else [])
       @ (if cl_flood cl then ''F'' else [])
       @ (if cl_mist cl then ''M'' else [])
       @ (if gc_tool_change (env_gc e) \<and> \<not> rpt_tool rpt then ''T'' else []))"

text \<open>The fields of the block under \<open>if(sys.report.value || gc_state.tool_change)\<close>.\<close>

definition wco_field :: "'f env \<Rightarrow> report_tracking_flags \<Rightarrow> string list" where
  "wco_field e rpt =
     (if rpt_wco rpt then [''|WCO:'', get_axis_values (env_fmt e) (wco_of e)] else [])"

definition gwco_field :: "'f env \<Rightarrow> report_tracking_flags \<Rightarrow> string list" where
  "gwco_field e rpt =
     (if rpt_gwco rpt then [''|WCS:G'', map_coord_system (gc_coord_system_id (env_gc e))] else [])"

definition overrides_field :: "'f env \<Rightarrow> report_tracking_flags \<Rightarrow> string list" where
  "overrides_field e rpt =
     (if rpt_overrides rpt
      then [appendbuf [''|Ov:'', uitoa (sys_override_feed_rate (env_sys e))],
            appendbuf ['','', uitoa (sys_override_rapid_rate (env_sys e))],
            appendbuf ['','', uitoa (sys_override_spindle_rpm (env_sys e))]]
      else [])"

definition activity_field :: "'f env \<Rightarrow> report_tracking_flags \<Rightarrow> string list" where
  "activity_field e rpt =
     (if rpt_spindle rpt \<or> rpt_coolant rpt \<or> rpt_tool rpt \<or> gc_tool_change (env_gc e)
      then [''|A:'' @ activity_letters e rpt] else [])"

definition scaling_field :: "'f env \<Rightarrow> report_tracking_flags \<Rightarrow> string list" where
  "scaling_field e rpt =
     (if rpt_scaling rpt then [''|Sc:'', axis_signals_tostring (gc_get_g51_state (env_gc e))]
      else [])"

definition mpg_field :: "'f env \<Rightarrow> report_tracking_flags \<Rightarrow> string list" where
  "mpg_field e rpt =
     (if rpt_mpg_mode rpt \<and> cap_mpg_mode (env_hal e)
      then [if sys_mpg_mode (env_sys e) then ''|MPG:1'' else ''|MPG:0''] else [])"

definition homed_field :: "'f env \<Rightarrow> report_tracking_flags \<Rightarrow> string list" where
  "homed_field e rpt =
     (if rpt_homed rpt \<and> (sys_homing_mask (env_sys e) \<noteq> 0 \<or> env_homing_single_axis e
                            \<or> env_homing_manual e)
      then (let homing = (if sys_homing_mask (env_sys e) \<noteq> 0 then sys_homing_mask (env_sys e)
                          else AXES_BITMASK);
                homed = sys_homed_mask (env_sys e)
            in [appendbuf [''|H:'', if and homing homed = homing then ''1'' else ''0'']]
               @ (if env_homing_single_axis e then [appendbuf ['','', uitoa (ucast homed)]]
                  else []))
      else [])"

definition xmode_field :: "'f env \<Rightarrow> report_tracking_flags \<Rightarrow> string list" where
  "xmode_field e rpt =
     (if rpt_xmode rpt \<and> env_mode e = Mode_Lathe
      then [if gc_diameter_mode (env_gc e) then ''|D:1'' else ''|D:0''] else [])"

definition tool_field :: "'f env \<Rightarrow> report_tracking_flags \<Rightarrow> string list" where
  "tool_field e rpt =
     (if rpt_tool rpt then [appendbuf [''|T:'', uitoa (gc_tool (env_gc e))]] else [])"

definition tlr_field :: "'f env \<Rightarrow> report_tracking_flags \<Rightarrow> string list" where
  "tlr_field e rpt =
     (if rpt_tlo_reference rpt
      then [appendbuf [''|TLR:'',
              uitoa (if sys_tlo_reference_set_mask (env_sys e) \<noteq> 0 then 1 else 0)]]
      else [])"

definition report_changed :: "'f env \<Rightarrow> report_tracking_flags \<Rightarrow> string list" where
  "report_changed e rpt =
     (if rpt_value rpt \<or> gc_tool_change (env_gc e)
      then wco_field e rpt @ gwco_field e rpt @ overrides_field e rpt @ activity_field e rpt
         @ scaling_field e rpt @ mpg_field e rpt @ homed_field e rpt @ xmode_field e rpt
         @ tool_field e rpt @ tlr_field e rpt
      else [])"

definition report_plugin :: "'f env \<Rightarrow> report_tracking_flags \<Rightarrow> string list" where
  "report_plugin e rpt = (case on_realtime_report e of None \<Rightarrow> [] | Some f \<Rightarrow> f rpt)"

text \<open>
  With \<open>COMPATIBILITY_LEVEL <= 1\<close>: the firmware tag under \<open>sys.report.all\<close>. The other
  branch (the parser-state change detection) writes nothing to the stream and touches neither
  the counters nor \<open>sys.report\<close>; it only raises execution flags, which are not part of
  this model.
\<close>

definition report_fw :: "report_tracking_flags \<Rightarrow> string list" where
  "report_fw rpt = (if rpt_all rpt then [''|FW:grblHAL''] else [])"

text \<open>
  \<open>report_realtime_status\<close>: the statics after the call and the strings written, in order.
  The last two assignments clear \<open>sys.report\<close> and set the pending WCO flag.
\<close>

definition report_realtime_status :: "'f env \<Rightarrow> report_static \<Rightarrow> report_static \<times> string list" where
  "report_realtime_status e st =
     (let (p', state_out) = report_state e (sys_report st) (probing st);
          st1 = override_step e (wco_step e st);
          rpt = sys_report st1;
          out = [''<''] @ state_out @ report_position e @ report_buffer e @ report_line_number e
                @ report_feed_speed e @ report_pin_state e @ report_changed e rpt
                @ report_plugin e rpt @ report_fw rpt @ [''>'' @ ASCII_EOL]
      in (st1\<lparr>probing := p',
              sys_report := rpt_clear\<lparr>rpt_wco := sr_work_coord_offset (env_sr e)
                                                  \<and> wco_counter st1 = 0\<rparr>\<rparr>,
          out))"

text \<open>The line as the host receives it.\<close>

definition status_line :: "'f env \<Rightarrow> report_static \<Rightarrow> string" where
  "status_line e st = concat (snd (report_realtime_status e st))"

text \<open>The state tokens of the switch, and the text a call puts between \<open><\<close> and the position.\<close>

definition state_tokens :: "string list" where
  "state_tokens = [''Idle'', ''Run'', ''Hold'', ''Jog'', ''Home'', ''Alarm'', ''Check'', ''Door'',
     ''Sleep'', ''Tool'']"

definition state_segment :: "'f env \<Rightarrow> report_static \<Rightarrow> string" where
  "state_segment e st = concat (snd (report_state e (sys_report st) (probing st)))"

text \<open>
  The strings that come from outside report.c (the two formatters and the extension
  callback) hold no line feed.
\<close>

definition collab_no_newline :: "'f env \<Rightarrow> bool" where
  "collab_no_newline e = ((\<forall>v. CHR 0x0A \<notin> set (get_axis_values (env_fmt e) v))
     \<and> (\<forall>v. CHR 0x0A \<notin> set (get_rate_value (env_fmt e) v))
     \<and> (\<forall>r. CHR 0x0A \<notin> set (concat (report_plugin e r))))"

text \<open>
  Consecutive calls with nothing in between that sets a dirty flag: the statics of one call
  are those the next one starts from.
\<close>

fun run_reports :: "report_static \<Rightarrow> 'f env list \<Rightarrow> string list list" where
  "run_reports st [] = []"
| "run_reports st (e # es) =
     (let (st', out) = report_realtime_status e st in out # run_reports st' es)"


text \<open>
  Whether a call wrote a field: one of the strings handed to the stream starts with the
  header of the field.
\<close>

definition wrote :: "string \<Rightarrow> string list \<Rightarrow> bool" where
  "wrote hdr out = list_ex (prefix hdr) out"

text \<open>
  The strings that come from outside report.c (the axis-value formatter and the extension
  callback) do not start with the header \<open>hdr\<close>.
\<close>

definition collab_free :: "string \<Rightarrow> 'f env \<Rightarrow> bool" where
  "collab_free hdr e = ((\<forall>v. \<not> prefix hdr (get_axis_values (env_fmt e) v))
     \<and> (\<forall>r. \<not> wrote hdr (report_plugin e r)))"

text \<open>
  A run of calls during which WCO reporting stays enabled and the machine stays in an
  active state (\<open>busy\<close>) or stays out of them; and the same for override reporting.
\<close>

definition held_wco :: "bool \<Rightarrow> 'f env list \<Rightarrow> bool" where
  "held_wco busy es = (\<forall>e\<in>set es. sr_work_coord_offset (env_sr e)
     \<and> active_state (env_state e) = busy \<and> collab_free ''|WCO:'' e)"

definition held_overrides :: "bool \<Rightarrow> 'f env list \<Rightarrow> bool" where
  "held_overrides busy es = (\<forall>e\<in>set es. sr_overrides (env_sr e)
     \<and> active_state (env_state e) = busy \<and> collab_free ''|Ov:'' e)"

text \<open>
  The number of calls that pass before the one that writes the field, as the statics tell
  it when the interval is \<open>I\<close>: none when the flag is set; for WCO a whole interval when
  the flag is clear and the counter is zero; otherwise the value of the counter.
\<close>

definition wco_due :: "nat \<Rightarrow> report_static \<Rightarrow> nat" where
  "wco_due I st = (if rpt_wco (sys_report st) then 0
     else if wco_counter st = 0 then I else unat (wco_counter st))"

definition override_due :: "report_static \<Rightarrow> nat" where
  "override_due st = (if rpt_overrides (sys_report st) then 0 else unat (override_counter st))"

section \<open>The settings catalogue\<close>

subsection \<open>Descriptors and registries\<close>

datatype status_code = Status_OK | Status_SettingDisabled | Status_Unhandled

text \<open>
  Modelled from the spec: the declaration of \<open>setting_detail_t\<close> (settings.h) is not
  among the source files. The record has the fields that the enumeration of report.c reads
  (\<open>id\<close>, \<open>group\<close>, \<open>name\<close>, \<open>is_available\<close>) and the spec's axis-repetition count
  (0 for a scalar, \<open>N_AXIS\<close> for a per-axis setting). A \<open>NULL\<close> \<open>is_available\<close>
  pointer is \<open>None\<close>; otherwise the field holds what the predicate returns for this
  descriptor.
\<close>

record setting_detail =
  sd_id :: nat
  sd_group :: nat
  sd_name :: string
  sd_is_available :: "bool option"
  sd_axis_rpt :: nat

text \<open>
  \<open>setting_details_t\<close>: the array of descriptors of one registry and the optional
  \<open>on_get_settings\<close> link to the next registry of the chain.
\<close>

datatype setting_details =
  Details (settings: "setting_detail list") (on_get_settings: "setting_details option")

text \<open>
  The enumeration constants of settings.h, which is not among the source files, are
  parameters of the model.
\<close>

record setting_consts =
  Group_All :: nat
  Group_Axis0 :: nat
  Setting_SettingsAll :: nat

definition N_AXIS :: nat where
  "N_AXIS = 3"

text \<open>
  Modelled from the spec: \<open>settings_normalize_group\<close> (settings.c) is not among the source
  files. The group of the settings of axis \<open>k\<close> is \<open>Group_Axis0 + k\<close>; normalising maps
  each of them to \<open>Group_Axis0\<close>, so that \<open>group - normalised\<close> is the offset the filter
  implies.
\<close>

definition settings_normalize_group :: "setting_consts \<Rightarrow> nat \<Rightarrow> nat" where
  "settings_normalize_group K g =
     (if Group_Axis0 K < g \<and> g < Group_Axis0 K + N_AXIS then Group_Axis0 K else g)"

text \<open>\<open>report_args_t\<close>\<close>

record report_args =
  ra_human_readable :: bool
  ra_group :: nat
  ra_offset :: nat

definition make_args :: "setting_consts \<Rightarrow> bool \<Rightarrow> nat \<Rightarrow> report_args" where
  "make_args K human_readable g =
     \<lparr> ra_human_readable = human_readable,
       ra_group = settings_normalize_group K g,
       ra_offset = g - settings_normalize_group K g \<rparr>"

text \<open>
  A rendered row: one call \<open>report_settings_detail(human_readable, setting, offset)\<close>,
  which writes one line for the setting \<open>id + offset\<close>. The output of an enumeration is
  the list of its rows, in the order of the calls.
\<close>

type_synonym row = "bool \<times> setting_detail \<times> nat"

subsection \<open>The iterator and the two callbacks\<close>

text \<open>
  Modelled from the spec: \<open>settings_iterator\<close> (settings.c) is not among the source files.
  It calls the callback once with offset 0 for a scalar descriptor and once per axis offset,
  in ascending order, for an axis-repeated one, stops when the callback returns false, and
  returns what the last call returned. \<open>iterator_offsets\<close> is the offsets it visits and
  \<open>iterate\<close> its loop; the callback takes the output so far and returns it extended.
\<close>

definition iterator_offsets :: "setting_detail \<Rightarrow> nat list" where
  "iterator_offsets s = (if sd_axis_rpt s = 0 then [0] else [0..<sd_axis_rpt s])"

fun iterate :: "(nat \<Rightarrow> 'o \<Rightarrow> bool \<times> 'o) \<Rightarrow> nat list \<Rightarrow> bool \<Rightarrow> 'o \<Rightarrow> bool \<times> 'o" where
  "iterate cb [] ok out = (ok, out)"
| "iterate cb (i # is) ok out =
     (let (ok', out') = cb i out in if ok' then iterate cb is ok' out' else (ok', out'))"

definition settings_iterator ::
  "setting_detail \<Rightarrow> (setting_detail \<Rightarrow> nat \<Rightarrow> 'o \<Rightarrow> bool \<times> 'o) \<Rightarrow> 'o \<Rightarrow> bool \<times> 'o" where
  "settings_iterator s callback out = iterate (callback s) (iterator_offsets s) False out"

text \<open>\<open>setting->is_available == NULL || setting->is_available(setting)\<close>\<close>

definition is_available :: "setting_detail \<Rightarrow> bool" where
  "is_available s = (sd_is_available s = None \<or> sd_is_available s = Some True)"

definition print_sorted :: "report_args \<Rightarrow> setting_detail \<Rightarrow> nat \<Rightarrow> row list \<Rightarrow> bool \<times> row list" where
  "print_sorted args s offset out =
     (True, if \<not> (ra_group args = sd_group s \<and> ra_offset args \<noteq> offset)
            then out @ [(ra_human_readable args, s, offset)] else out)"

definition print_unsorted :: "report_args \<Rightarrow> setting_detail \<Rightarrow> nat \<Rightarrow> row list \<Rightarrow> bool \<times> row list" where
  "print_unsorted args s offset out =
     (True, if \<not> (ra_group args = sd_group s \<and> ra_offset args \<noteq> offset) \<and> is_available s
            then out @ [(ra_human_readable args, s, offset)] else out)"

subsection \<open>The sorted path and the fallback\<close>

text \<open>The descriptors of the whole chain, registry by registry.\<close>

fun chain_settings :: "setting_details \<Rightarrow> setting_detail list" where
  "chain_settings (Details ss None) = ss"
| "chain_settings (Details ss (Some d)) = ss @ chain_settings d"

text \<open>
  The \<open>uint16_t\<close> total that \<open>sort_settings_details\<close> hands to \<open>calloc\<close>. The scratch
  array is modelled as a list; the model stands for the C code only while the total does
  not wrap (\<open>chain_fits\<close>), since otherwise the array is written past its end.
\<close>

definition n_settings_total :: "setting_details \<Rightarrow> nat" where
  "n_settings_total d = length (chain_settings d) mod 2 ^ 16"

definition chain_fits :: "setting_details \<Rightarrow> bool" where
  "chain_fits d = (length (chain_settings d) < 2 ^ 16)"

text \<open>The loop over the sorted pointers: \<open>reported\<close> and the rows written so far.\<close>

fun print_all_sorted :: "report_args \<Rightarrow> setting_detail list \<Rightarrow> bool \<Rightarrow> row list \<Rightarrow> bool \<times> row list" where
  "print_all_sorted args [] reported out = (reported, out)"
| "print_all_sorted args (s # ss) reported out =
     (let (ok, out') = settings_iterator s (print_sorted args) out
      in print_all_sorted args ss (if ok then True else reported) out')"

text \<open>
  \<open>sort_settings_details\<close>. \<open>calloc\<close> tells whether an allocation of that many pointers
  succeeds; \<open>qsort\<close> with \<open>cmp_settings\<close> orders the pointers by ascending id (the order
  among equal ids, which \<open>qsort\<close> leaves open, is that of a stable sort here).
\<close>

definition sort_settings_details ::
  "setting_consts \<Rightarrow> (nat \<Rightarrow> bool) \<Rightarrow> bool \<Rightarrow> nat \<Rightarrow> setting_details \<Rightarrow> status_code \<times> row list" where
  "sort_settings_details K calloc human_readable g details =
     (let reported = (g = Group_All K);
          args = make_args K human_readable g
      in if calloc (n_settings_total details)
         then (let all_settings = filter (\<lambda>s. (g = Group_All K \<or> sd_group s = ra_group args)
                                               \<and> is_available s) (chain_settings details);
                   (reported', out) = print_all_sorted args (sort_key sd_id all_settings) reported []
               in (if reported' then Status_OK else Status_SettingDisabled, out))
         else (Status_Unhandled, []))"

text \<open>The loop of the fallback over one registry, and the \<open>do \<dots> while\<close> over the chain.\<close>

fun print_registry_unsorted ::
  "setting_consts \<Rightarrow> report_args \<Rightarrow> nat \<Rightarrow> setting_detail list \<Rightarrow> bool \<Rightarrow> row list \<Rightarrow> bool \<times> row list" where
  "print_registry_unsorted K args g [] reported out = (reported, out)"
| "print_registry_unsorted K args g (s # ss) reported out =
     (if g = Group_All K \<or> sd_group s = ra_group args
      then (let (ok, out') = settings_iterator s (print_unsorted args) out
            in print_registry_unsorted K args g ss (if ok then True else reported) out')
      else print_registry_unsorted K args g ss reported out)"

fun print_chain_unsorted ::
  "setting_consts \<Rightarrow> report_args \<Rightarrow> nat \<Rightarrow> setting_details \<Rightarrow> bool \<Rightarrow> row list \<Rightarrow> bool \<times> row list" where
  "print_chain_unsorted K args g (Details ss nxt) reported out =
     (let (reported', out') = print_registry_unsorted K args g ss reported out
      in case nxt of None \<Rightarrow> (reported', out')
         | Some d \<Rightarrow> print_chain_unsorted K args g d reported' out')"

definition print_settings_details ::
  "setting_consts \<Rightarrow> (nat \<Rightarrow> bool) \<Rightarrow> bool \<Rightarrow> nat \<Rightarrow> setting_details \<Rightarrow> status_code \<times> row list" where
  "print_settings_details K calloc human_readable g details =
     (let (status, out) = sort_settings_details K calloc human_readable g details
      in if status \<noteq> Status_Unhandled then (status, out)
         else (let (reported, out') =
                     print_chain_unsorted K (make_args K human_readable g) g details
                       (g = Group_All K) []
               in (if reported then Status_OK else Status_SettingDisabled, out')))"

text \<open>
  \<open>report_settings_details\<close>. \<open>setting_get_details\<close> (settings.c, not among the source
  files) is a parameter: the descriptor that covers an id, if there is one.
\<close>

definition report_settings_details ::
  "setting_consts \<Rightarrow> (nat \<Rightarrow> bool) \<Rightarrow> (nat \<Rightarrow> setting_detail option) \<Rightarrow> bool \<Rightarrow> nat \<Rightarrow> nat
     \<Rightarrow> setting_details \<Rightarrow> status_code \<times> row list" where
  "report_settings_details K calloc setting_get_details human_readable sid g details =
     (if sid \<noteq> Setting_SettingsAll K
      then (case setting_get_details sid of
              Some s \<Rightarrow> (Status_OK, [(human_readable, s, sid - sd_id s)])
            | None \<Rightarrow> (Status_SettingDisabled, []))
      else print_settings_details K calloc human_readable g details)"

text \<open>
  The rows one descriptor contributes under the duplicate-suppression rule: one per offset
  the iterator visits, except those of the requested group whose offset is not the
  requested one.
\<close>

definition rows_for :: "report_args \<Rightarrow> setting_detail \<Rightarrow> row list" where
  "rows_for args s =
     map (\<lambda>off. (ra_human_readable args, s, off))
       (filter (\<lambda>off. \<not> (ra_group args = sd_group s \<and> ra_offset args \<noteq> off))
          (iterator_offsets s))"

text \<open>The group test of both paths.\<close>

definition in_scope :: "setting_consts \<Rightarrow> report_args \<Rightarrow> nat \<Rightarrow> setting_detail \<Rightarrow> bool" where
  "in_scope K args g s = (g = Group_All K \<or> sd_group s = ra_group args)"

section \<open>The odometer plugin\<close>

text \<open>
  A function pointer stored in an entry point is either the odometer's own function for that
  entry point or some other function, known by a number; \<open>NULL\<close> is \<open>None\<close>. What a
  handler does is its new statics and the list of its outward actions, in order; a call
  through a saved pointer is the action \<open>Call\<close>, and a call through a \<open>NULL\<close> pointer is
  the error \<open>Null_call\<close>. The distances (floats) of \<open>odometer_data_t\<close> are not modelled.
\<close>

datatype handler = Odometer_fn | Other_fn nat

datatype odo_error = Null_call

datatype odo_event =
    Call handler
  | Nvs_write
  | Enqueue_odometers_write
  | Enqueue_warning1
  | Enqueue_warning2
  | Report_odometers
  | Report_previous
  | Warn_previous
  | Data_reset bool
  | Write string

datatype nvs_type = NVS_None | NVS_EEPROM | NVS_FRAM | NVS_Flash | NVS_Emulated

text \<open>The entry points of \<open>grbl\<close> and \<open>hal\<close> that the plugin takes over.\<close>

record hooks =
  grbl_on_unknown_sys_command :: "handler option"
  grbl_on_state_change :: "handler option"
  grbl_on_report_options :: "handler option"
  hal_settings_changed :: "handler option"
  hal_spindle_set_state :: "handler option"
  hal_stepper_pulse_start :: "handler option"

text \<open>
  The statics of odometer.c (\<open>spindle_set_state\<close> is the C static
  \<open>spindle_set_state_\<close>).
\<close>

record odometer_static =
  stepper_pulse_start :: "handler option"
  on_unknown_sys_command :: "handler option"
  on_state_change :: "handler option"
  spindle_set_state :: "handler option"
  settings_changed :: "handler option"
  on_report_options :: "handler option"
  odometer_changed :: bool
  steps_x :: "32 word"
  steps_y :: "32 word"
  steps_z :: "32 word"
  state_ms :: "32 word"
  spindle_ms :: "32 word"
  odometers_motors :: "64 word"
  odometers_spindle :: "64 word"

text \<open>
  \<open>odometer_init\<close>. \<open>room\<close> is the outcome of the size test on the NVS area (its constants
  are not among the source files) and \<open>read_ok\<close> that of \<open>memcpy_from_nvs\<close>.
\<close>

definition odometer_init ::
  "nvs_type \<Rightarrow> bool \<Rightarrow> bool \<Rightarrow> hooks \<Rightarrow> odometer_static \<Rightarrow> hooks \<times> odometer_static \<times> odo_event list" where
  "odometer_init nvs room read_ok h st =
     (if \<not> (nvs = NVS_EEPROM \<or> nvs = NVS_FRAM) then (h, st, [Enqueue_warning1])
      else if \<not> room then (h, st, [Enqueue_warning2])
      else (h\<lparr> grbl_on_unknown_sys_command := Some Odometer_fn,
               grbl_on_state_change := Some Odometer_fn,
               grbl_on_report_options := Some Odometer_fn,
               hal_settings_changed := Some Odometer_fn,
               hal_spindle_set_state := Some Odometer_fn,
               hal_stepper_pulse_start := Some Odometer_fn \<rparr>,
            st\<lparr> on_unknown_sys_command := grbl_on_unknown_sys_command h,
                on_state_change := grbl_on_state_change h,
                on_report_options := grbl_on_report_options h,
                settings_changed := hal_settings_changed h,
                spindle_set_state := hal_spindle_set_state h,
                stepper_pulse_start := hal_stepper_pulse_start h \<rparr>,
            if read_ok then [] else [Data_reset False]))"

text \<open>\<open>stepperPulseStart\<close>, given the step bits of the stepper.\<close>

definition stepperPulseStart ::
  "bool \<Rightarrow> bool \<Rightarrow> bool \<Rightarrow> odometer_static \<Rightarrow> odo_error + odometer_static \<times> odo_event list" where
  "stepperPulseStart x y z st =
     (let st' = st\<lparr> odometer_changed := True,
                    steps_x := (if x then steps_x st + 1 else steps_x st),
                    steps_y := (if y then steps_y st + 1 else steps_y st),
                    steps_z := (if z then steps_z st + 1 else steps_z st) \<rparr>
      in case stepper_pulse_start st of
           None \<Rightarrow> Inl Null_call
         | Some f \<Rightarrow> Inr (st', [Call f]))"

text \<open>\<open>onStateChanged\<close>, given the new state and \<open>hal.get_elapsed_ticks()\<close>.\<close>

definition onStateChanged ::
  "sys_state \<Rightarrow> 32 word \<Rightarrow> odometer_static \<Rightarrow> odometer_static \<times> odo_event list" where
  "onStateChanged state ticks st =
     (let (st', ev) =
            (if state = STATE_CYCLE \<or> state = STATE_JOG \<or> state = STATE_HOMING
             then (st\<lparr> state_ms := ticks \<rparr>, [])
             else if odometer_changed st
             then (st\<lparr> odometer_changed := False,
                       odometers_motors := odometers_motors st + ucast (ticks - state_ms st),
                       steps_x := 0, steps_y := 0, steps_z := 0 \<rparr>, [Nvs_write])
             else (st, []))
      in (st', ev @ (case on_state_change st of None \<Rightarrow> [] | Some f \<Rightarrow> [Call f])))"

text \<open>\<open>onSpindleSetState\<close>, given \<open>state.on\<close> and the elapsed ticks.\<close>

definition onSpindleSetState ::
  "bool \<Rightarrow> 32 word \<Rightarrow> odometer_static \<Rightarrow> odo_error + odometer_static \<times> odo_event list" where
  "onSpindleSetState on ticks st =
     (case spindle_set_state st of
        None \<Rightarrow> Inl Null_call
      | Some f \<Rightarrow>
          Inr (if on then (st\<lparr> spindle_ms := ticks \<rparr>, [Call f])
               else if spindle_ms st \<noteq> 0
               then (st\<lparr> odometers_spindle := odometers_spindle st + ucast (ticks - spindle_ms st),
                         spindle_ms := 0 \<rparr>, [Call f, Enqueue_odometers_write])
               else (st, [Call f])))"

text \<open>
  \<open>onSettingsChanged\<close>. \<open>ext\<close> is what the saved handler does to the entry points; the
  plugin then takes back the two HAL entry points that are no longer its own.
\<close>

definition onSettingsChanged ::
  "(hooks \<Rightarrow> hooks) \<Rightarrow> hooks \<Rightarrow> odometer_static
     \<Rightarrow> odo_error + hooks \<times> odometer_static \<times> odo_event list" where
  "onSettingsChanged ext h st =
     (case settings_changed st of
        None \<Rightarrow> Inl Null_call
      | Some f \<Rightarrow>
          (let h1 = ext h;
               (h2, st2) = (if hal_spindle_set_state h1 \<noteq> Some Odometer_fn
                            then (h1\<lparr> hal_spindle_set_state := Some Odometer_fn \<rparr>,
                                  st\<lparr> spindle_set_state := hal_spindle_set_state h1 \<rparr>)
                            else (h1, st));
               (h3, st3) = (if hal_stepper_pulse_start h2 \<noteq> Some Odometer_fn
                            then (h2\<lparr> hal_stepper_pulse_start := Some Odometer_fn \<rparr>,
                                  st2\<lparr> stepper_pulse_start := hal_stepper_pulse_start h2 \<rparr>)
                            else (h2, st2))
           in Inr (h3, st3, [Call f])))"

text \<open>
  \<open>commandExecute\<close>. \<open>prev_ok\<close> is the outcome of reading the previous odometers back,
  \<open>ext_status\<close> what the saved handler returns. The reports and the reset are single actions.
\<close>

definition line1 :: "string \<Rightarrow> char option" where
  "line1 line = (case line of _ # c # _ \<Rightarrow> Some c | _ \<Rightarrow> None)"

definition own_command :: "bool \<Rightarrow> string \<Rightarrow> status_code \<times> odo_event list" where
  "own_command prev_ok line =
     (if line1 line = Some CHR ''O''
      then (let r1 = (if tl line = ''ODOMETERS'' then (Status_OK, [Report_odometers])
                      else (Status_Unhandled, []));
                r2 = (if tl line = ''ODOMETERS=PREV''
                      then (Status_OK, snd r1 @ [if prev_ok then Report_previous else Warn_previous])
                      else r1);
                r3 = (if tl line = ''ODOMETERS=RST''
                      then (Status_OK, snd r2 @ [Data_reset True])
                      else r2)
            in r3)
      else (Status_Unhandled, []))"

definition commandExecute ::
  "bool \<Rightarrow> status_code \<Rightarrow> string \<Rightarrow> odometer_static \<Rightarrow> status_code \<times> odo_event list" where
  "commandExecute prev_ok ext_status line st =
     (let (retval, ev) = own_command prev_ok line
      in case on_unknown_sys_command st of
           Some f \<Rightarrow> if retval = Status_Unhandled then (ext_status, ev @ [Call f]) else (retval, ev)
         | None \<Rightarrow> (retval, ev))"

definition onReportOptions :: "odometer_static \<Rightarrow> odo_error + odo_event list" where
  "onReportOptions st =
     (case on_report_options st of
        None \<Rightarrow> Inl Null_call
      | Some f \<Rightarrow> Inr [Call f, Write (''[PLUGIN:ODOMETERS v0.01]'' @ ASCII_EOL)])"

text \<open>The handler a call made, if the run of the handler is not an error.\<close>

definition calls :: "handler \<Rightarrow> odo_event list \<Rightarrow> bool" where
  "calls f ev = (Call f \<in> set ev)"

text \<open>The six saved pointers of the statics.\<close>

definition saved_handlers :: "odometer_static \<Rightarrow> handler option list" where
  "saved_handlers st = [stepper_pulse_start st, on_unknown_sys_command st, on_state_change st,
     spindle_set_state st, settings_changed st, on_report_options st]"

section \<open>Concrete inputs\<close>

text \<open>
  A three-axis machine at rest: machine-position mode, every optional field off, no pin
  active, no probe driver, no extension callback. Positions are formatted as \<open>0.000\<close>.
\<close>

definition sr_plain :: status_report_flags where
  "sr_plain = \<lparr> sr_machine_position = True, sr_buffer_state = False, sr_line_numbers = False,
     sr_feed_speed = False, sr_pin_state = False, sr_work_coord_offset = False,
     sr_overrides = False, sr_parser_state = False, sr_alarm_substate = False,
     sr_run_substate = False \<rparr>"

definition sys_plain :: "unit sys_t" where
  "sys_plain = \<lparr> sys_probing_state = Probing_Off, sys_feed_hold_pending = False,
     sys_holding_state = 2, sys_alarm = 0, sys_parking_state = 0,
     sys_block_delete_enabled = False, sys_optional_stop_disable = False, sys_spindle_rpm = (),
     sys_override_feed_rate = 100, sys_override_rapid_rate = 100,
     sys_override_spindle_rpm = 100, sys_mpg_mode = False, sys_homing_mask = 0,
     sys_homed_mask = 0, sys_tlo_reference_set_mask = 0 \<rparr>"

definition ax_none :: axes_signals where
  "ax_none = \<lparr> ax_x = False, ax_y = False, ax_z = False, ax_rest = False \<rparr>"

definition gc_plain :: "unit gc_t" where
  "gc_plain = \<lparr> gc_tool_change = False, gc_diameter_mode = False, gc_coord_system_id = 0,
     gc_tool = 0, gc_get_offset = [(), (), ()], gc_get_g51_state = ax_none \<rparr>"

definition ctl_none :: control_signals where
  "ctl_none = \<lparr> ctl_reset = False, ctl_feed_hold = False, ctl_cycle_start = False,
     ctl_safety_door_ajar = False, ctl_block_delete = False, ctl_stop_disable = False,
     ctl_e_stop = False, ctl_motor_warning = False, ctl_motor_fault = False,
     ctl_limits_override = False, ctl_other = False \<rparr>"

definition hal_plain :: "unit hal_t" where
  "hal_plain = \<lparr> hal_probe_get_state = None, plan_block_buffer_available = 35,
     hal_rx_buffer_available = 1024, plan_current_block_line = None,
     hal_spindle_get_state = \<lparr> sp_on = False, sp_ccw = False, sp_encoder_error = False \<rparr>,
     hal_spindle_get_data_rpm = None, st_realtime_rate = (), hal_limits_get_state = ax_none,
     hal_control_get_state = ctl_none,
     hal_coolant_get_state = \<lparr> cl_flood = False, cl_mist = False, cl_rest = False \<rparr>,
     cap_variable_spindle = True, cap_mpg_mode = False, cap_spindle_sync = False,
     cap_safety_door_ajar = False, cap_stop_disable = False \<rparr>"

definition fmt_plain :: "unit fmt_t" where
  "fmt_plain = \<lparr> get_axis_values = (\<lambda>_. ''0.000,0.000,0.000''), get_rate_value = (\<lambda>_. ''0''),
     lroundf = (\<lambda>_. 0), fsub = (\<lambda>_ _. ()) \<rparr>"

definition env_plain :: "unit env" where
  "env_plain = \<lparr> env_state = STATE_IDLE, env_sr = sr_plain, env_sys = sys_plain,
     env_gc = gc_plain, env_hal = hal_plain, env_fmt = fmt_plain, env_mpos = [(), (), ()],
     env_homing_single_axis = False, env_homing_manual = False, env_mode = Mode_Standard,
     on_realtime_report = None \<rparr>"

text \<open>The same machine running, with WCO and override reporting enabled.\<close>

definition env_run :: "unit env" where
  "env_run = env_plain\<lparr> env_state := STATE_CYCLE,
     env_sr := sr_plain\<lparr> sr_work_coord_offset := True, sr_overrides := True \<rparr> \<rparr>"

text \<open>The same machine at rest, with WCO and override reporting enabled.\<close>

definition env_idle :: "unit env" where
  "env_idle = env_run\<lparr> env_state := STATE_IDLE \<rparr>"

text \<open>The statics after \<open>report_init_message\<close> when no dirty flag is set.\<close>

definition static_init :: report_static where
  "static_init = \<lparr> wco_counter = 0, override_counter = 0, probing = False,
     sys_report = rpt_clear \<rparr>"

text \<open>Statics in mid-run: both counters part-way down, nothing pending.\<close>

definition static_midrun :: report_static where
  "static_midrun = \<lparr> wco_counter = 7, override_counter = 3, probing = False,
     sys_report = rpt_clear \<rparr>"

text \<open>The machine in feed hold, holding stage 2, every reporting option off.\<close>

definition env_hold :: "unit env" where
  "env_hold = env_plain\<lparr> env_state := STATE_HOLD \<rparr>"

text \<open>
  The safety door open at parking stage 3, and an alarm with code 9 and alarm sub-state
  reporting enabled.
\<close>

definition env_door :: "unit env" where
  "env_door = env_plain\<lparr> env_state := STATE_SAFETY_DOOR,
     env_sys := sys_plain\<lparr> sys_parking_state := 3 \<rparr> \<rparr>"

definition env_alarm :: "unit env" where
  "env_alarm = env_plain\<lparr> env_state := STATE_ALARM,
     env_sr := sr_plain\<lparr> sr_alarm_substate := True \<rparr>,
     env_sys := sys_plain\<lparr> sys_alarm := 9 \<rparr> \<rparr>"

text \<open>
  The machine running a probing cycle with run sub-state reporting off, and the machine
  running after a probing cycle with the probe still triggered.
\<close>

definition env_probing :: "unit env" where
  "env_probing = env_plain\<lparr> env_state := STATE_CYCLE,
     env_sys := sys_plain\<lparr> sys_probing_state := Probing_Active \<rparr> \<rparr>"

definition env_probed :: "unit env" where
  "env_probed = env_plain\<lparr> env_state := STATE_CYCLE,
     env_hal := hal_plain\<lparr> hal_probe_get_state :=
        Some \<lparr> prb_triggered = True, prb_connected = True \<rparr> \<rparr> \<rparr>"

definition static_probing :: report_static where
  "static_probing = static_init\<lparr> probing := True \<rparr>"

text \<open>
  The machine at rest with pin-state reporting and block delete enabled, a probe connected
  and not triggered, and no pin active.
\<close>

definition env_pins :: "unit env" where
  "env_pins = env_plain\<lparr>
     env_sr := sr_plain\<lparr> sr_pin_state := True \<rparr>,
     env_sys := sys_plain\<lparr> sys_block_delete_enabled := True \<rparr>,
     env_hal := hal_plain\<lparr> hal_probe_get_state :=
        Some \<lparr> prb_triggered = False, prb_connected = True \<rparr> \<rparr> \<rparr>"

text \<open>
  A small catalogue: the core registry with a per-axis setting (base id 100, three axes)
  and a scalar one (id 30), and a plugin registry whose only setting (id 340) is not
  available. The values of the enumeration constants are arbitrary.
\<close>

definition K_demo :: setting_consts where
  "K_demo = \<lparr> Group_All = 0, Group_Axis0 = 40, Setting_SettingsAll = 65535 \<rparr>"

definition sd_steps :: setting_detail where
  "sd_steps = \<lparr> sd_id = 100, sd_group = 40, sd_name = ''-axis travel resolution'',
     sd_is_available = None, sd_axis_rpt = 3 \<rparr>"

definition sd_rpm :: setting_detail where
  "sd_rpm = \<lparr> sd_id = 30, sd_group = 5, sd_name = ''Maximum spindle speed'',
     sd_is_available = None, sd_axis_rpt = 0 \<rparr>"

definition sd_hidden :: setting_detail where
  "sd_hidden = \<lparr> sd_id = 340, sd_group = 7, sd_name = ''Spindle at speed tolerance'',
     sd_is_available = Some False, sd_axis_rpt = 0 \<rparr>"

definition catalog_demo :: setting_details where
  "catalog_demo = Details [sd_steps, sd_rpm] (Some (Details [sd_hidden] None))"

text \<open>
  Entry points that all hold a handler of the core or of another plugin, the statics of the
  odometer before \<open>odometer_init\<close>, and the statics once it has installed its hooks.
\<close>

definition hooks_demo :: hooks where
  "hooks_demo = \<lparr> grbl_on_unknown_sys_command = Some (Other_fn 1),
     grbl_on_state_change = Some (Other_fn 2), grbl_on_report_options = Some (Other_fn 3),
     hal_settings_changed = Some (Other_fn 4), hal_spindle_set_state = Some (Other_fn 5),
     hal_stepper_pulse_start = Some (Other_fn 6) \<rparr>"

definition odometer_zero :: odometer_static where
  "odometer_zero = \<lparr> stepper_pulse_start = None, on_unknown_sys_command = None,
     on_state_change = None, spindle_set_state = None, settings_changed = None,
     on_report_options = None, odometer_changed = False, steps_x = 0, steps_y = 0, steps_z = 0,
     state_ms = 0, spindle_ms = 0, odometers_motors = 0, odometers_spindle = 0 \<rparr>"

definition odometer_installed :: odometer_static where
  "odometer_installed = fst (snd (odometer_init NVS_EEPROM True True hooks_demo odometer_zero))"

definition hooks_installed :: hooks where
  "hooks_installed = fst (odometer_init NVS_EEPROM True True hooks_demo odometer_zero)"

text \<open>The statics of the installed odometer once the machine has started a cycle.\<close>

definition odometer_cycling :: odometer_static where
  "odometer_cycling = fst (onStateChanged STATE_CYCLE 5 odometer_installed)"

text \<open>
  A settings-changed handler of the driver that puts another of its functions into the
  spindle set-state entry point.
\<close>

definition ext_demo :: "hooks \<Rightarrow> hooks" where
  "ext_demo h = h\<lparr> hal_spindle_set_state := Some (Other_fn 7) \<rparr>"

section \<open>Properties of the status report\<close>

subsection \<open>Numbers as text\<close>


lemma digit_char_cases: "d < 10 \<Longrightarrow> digit_char d \<in> set ''0123456789''"
  unfolding digit_char_def by (rule nth_mem) simp

lemma uitoa_nat_digits: "set (uitoa_nat n) \<subseteq> set ''0123456789''"
proof (induction n rule: uitoa_nat.induct)
  case (1 n)
  show ?case
  proof (cases "n < 10")
    case True
    then show ?thesis using digit_char_cases [of n] by (subst uitoa_nat.simps) simp
  next
    case False
    then show ?thesis using 1 digit_char_cases [of "n mod 10"]
      by (subst uitoa_nat.simps) simp
  qed
qed

lemma uitoa_nat_nonempty: "uitoa_nat n \<noteq> []"
  by (subst uitoa_nat.simps) simp

lemma uitoa_digits: "set (uitoa w) \<subseteq> set ''0123456789''"
  unfolding uitoa_def by (rule uitoa_nat_digits)

lemma uitoa_nonempty: "uitoa w \<noteq> []"
  by (simp add: uitoa_def uitoa_nat_nonempty)

lemma uitoa_no_bar: "\<not> prefix (CHR ''|'' # h) (uitoa w @ s)"
proof (cases "uitoa w")
  case Nil
  then show ?thesis using uitoa_nonempty by simp
next
  case (Cons c cs)
  then have "c \<in> set ''0123456789''" using uitoa_digits [of w] by auto
  then show ?thesis using Cons by auto
qed


subsection \<open>Which fields a call writes\<close>

lemma wrote_simps [simp]:
  "wrote h [] = False"
  "wrote h (c # cs) = (prefix h c \<or> wrote h cs)"
  "wrote h (xs @ ys) = (wrote h xs \<or> wrote h ys)"
  by (simp_all add: wrote_def)

lemma uitoa_no_bar' [simp]: "\<not> prefix (CHR ''|'' # h) (uitoa w)"
  using uitoa_no_bar [of h w "[]"] by simp

lemmas uitoa_no_bar_simp [simp] = uitoa_no_bar

lemma state_free:
  "\<not> wrote ''|WCO:'' (snd (report_state e r p))" "\<not> wrote ''|Ov:'' (snd (report_state e r p))"
  by (simp_all add: report_state_def appendbuf_def Let_def split: sys_state.splits)

lemma position_free:
  "collab_free h e \<Longrightarrow> h = ''|WCO:'' \<or> h = ''|Ov:'' \<Longrightarrow> \<not> wrote h (report_position e)"
  by (auto simp add: report_position_def collab_free_def)

lemma buffer_free:
  "\<not> wrote ''|WCO:'' (report_buffer e)" "\<not> wrote ''|Ov:'' (report_buffer e)"
  by (simp_all add: report_buffer_def)

lemma line_number_free:
  "\<not> wrote ''|WCO:'' (report_line_number e)" "\<not> wrote ''|Ov:'' (report_line_number e)"
  by (simp_all add: report_line_number_def appendbuf_def split: option.splits)

lemma feed_speed_free:
  "\<not> wrote ''|WCO:'' (report_feed_speed e)" "\<not> wrote ''|Ov:'' (report_feed_speed e)"
  by (simp_all add: report_feed_speed_def appendbuf_def split: option.splits)

lemma pin_state_free:
  "\<not> wrote ''|WCO:'' (report_pin_state e)" "\<not> wrote ''|Ov:'' (report_pin_state e)"
  by (simp_all add: report_pin_state_def)

lemma fw_free:
  "\<not> wrote ''|WCO:'' (report_fw r)" "\<not> wrote ''|Ov:'' (report_fw r)"
  by (simp_all add: report_fw_def)

lemma axis_letters_free [simp]: "\<not> prefix (CHR ''|'' # h) (axis_signals_tostring a)"
  by (simp add: axis_signals_tostring_def)

lemma map_coord_free [simp]: "\<not> prefix (CHR ''|'' # h) (map_coord_system c)"
  by (simp add: map_coord_system_def Let_def)


lemma fields_free:
  "\<not> wrote ''|WCO:'' (gwco_field e r)" "\<not> wrote ''|Ov:'' (gwco_field e r)"
  "\<not> wrote ''|WCO:'' (activity_field e r)" "\<not> wrote ''|Ov:'' (activity_field e r)"
  "\<not> wrote ''|WCO:'' (scaling_field e r)" "\<not> wrote ''|Ov:'' (scaling_field e r)"
  "\<not> wrote ''|WCO:'' (mpg_field e r)" "\<not> wrote ''|Ov:'' (mpg_field e r)"
  "\<not> wrote ''|WCO:'' (homed_field e r)" "\<not> wrote ''|Ov:'' (homed_field e r)"
  "\<not> wrote ''|WCO:'' (xmode_field e r)" "\<not> wrote ''|Ov:'' (xmode_field e r)"
  "\<not> wrote ''|WCO:'' (tool_field e r)" "\<not> wrote ''|Ov:'' (tool_field e r)"
  "\<not> wrote ''|WCO:'' (tlr_field e r)" "\<not> wrote ''|Ov:'' (tlr_field e r)"
  "\<not> wrote ''|WCO:'' (overrides_field e r)"
  by (simp_all add: gwco_field_def activity_field_def scaling_field_def mpg_field_def
      homed_field_def xmode_field_def tool_field_def tlr_field_def overrides_field_def
      appendbuf_def Let_def)

lemma wco_field_wrote:
  "collab_free h e \<Longrightarrow> wrote h (wco_field e r) = (rpt_wco r \<and> prefix h ''|WCO:'')"
  by (simp add: wco_field_def collab_free_def)

lemma overrides_field_wrote: "wrote ''|Ov:'' (overrides_field e r) = rpt_overrides r"
  by (simp add: overrides_field_def appendbuf_def)

lemma changed_wco:
  "collab_free ''|WCO:'' e \<Longrightarrow> wrote ''|WCO:'' (report_changed e r) = rpt_wco r"
  by (auto simp add: report_changed_def fields_free wco_field_wrote rpt_value_def)

lemma changed_ov:
  "collab_free ''|Ov:'' e \<Longrightarrow> wrote ''|Ov:'' (report_changed e r) = rpt_overrides r"
  by (auto simp add: report_changed_def fields_free wco_field_wrote overrides_field_wrote rpt_value_def)


lemma plugin_free: "collab_free h e \<Longrightarrow> \<not> wrote h (report_plugin e r)"
  by (simp add: collab_free_def)

lemma override_step_wco [simp]:
  "rpt_wco (sys_report (override_step e s)) = rpt_wco (sys_report s)"
  "wco_counter (override_step e s) = wco_counter s"
  by (simp_all add: override_step_def)

lemma wco_step_overrides [simp]:
  "rpt_overrides (sys_report (wco_step e s)) = rpt_overrides (sys_report s)"
  "override_counter (wco_step e s) = override_counter s"
  by (simp_all add: wco_step_def)

lemma override_step_wco_step:
  "override_counter (override_step e (wco_step e s)) = override_counter (override_step e s)"
  "rpt_overrides (sys_report (override_step e (wco_step e s)))
     = rpt_overrides (sys_report (override_step e s))"
  by (simp_all add: override_step_def)

lemma rrs_out:
  "snd (report_realtime_status e st) =
     [''<''] @ snd (report_state e (sys_report st) (probing st)) @ report_position e
       @ report_buffer e @ report_line_number e @ report_feed_speed e @ report_pin_state e
       @ report_changed e (sys_report (override_step e (wco_step e st)))
       @ report_plugin e (sys_report (override_step e (wco_step e st)))
       @ report_fw (sys_report (override_step e (wco_step e st))) @ [''>'' @ ASCII_EOL]"
  by (simp add: report_realtime_status_def Let_def split_beta)

lemma rrs_fst:
  "fst (report_realtime_status e st) =
     (override_step e (wco_step e st))
       \<lparr>probing := fst (report_state e (sys_report st) (probing st)),
        sys_report := rpt_clear\<lparr>rpt_wco := sr_work_coord_offset (env_sr e)
                         \<and> wco_counter (wco_step e st) = 0\<rparr>\<rparr>"
  by (simp add: report_realtime_status_def Let_def split_beta)

lemma rrs_wrote_wco:
  "collab_free ''|WCO:'' e \<Longrightarrow>
   wrote ''|WCO:'' (snd (report_realtime_status e st)) = rpt_wco (sys_report (wco_step e st))"
  by (simp add: rrs_out state_free position_free buffer_free line_number_free feed_speed_free
      pin_state_free fw_free changed_wco plugin_free)

lemma rrs_wrote_ov:
  "collab_free ''|Ov:'' e \<Longrightarrow>
   wrote ''|Ov:'' (snd (report_realtime_status e st))
     = rpt_overrides (sys_report (override_step e st))"
  by (simp add: rrs_out state_free position_free buffer_free line_number_free feed_speed_free
      pin_state_free fw_free changed_ov plugin_free override_step_wco_step)


subsection \<open>One step of the counters\<close>

lemma interval_cases:
  "wco_interval b = 30 \<or> wco_interval b = 10" "override_interval b = 20 \<or> override_interval b = 10"
  by (simp_all add: wco_interval_def override_interval_def REPORT_WCO_REFRESH_BUSY_COUNT_def
      REPORT_WCO_REFRESH_IDLE_COUNT_def REPORT_OVERRIDE_REFRESH_BUSY_COUNT_def
      REPORT_OVERRIDE_REFRESH_IDLE_COUNT_def)

lemma interval_pos: "0 < wco_interval b" "0 < override_interval b"
  using interval_cases [of b] by auto

lemma unat_counter_dec: "(c :: 8 word) \<noteq> 0 \<Longrightarrow> unat (c - 1) = unat c - 1"
  by (simp add: unat_minus_one)

lemma wco_step_flag:
  "sr_work_coord_offset (env_sr e) \<Longrightarrow> rpt_wco (sys_report (wco_step e st)) = rpt_wco (sys_report st)"
  by (simp add: wco_step_def)

lemma rrs_next:
  "wco_counter (fst (report_realtime_status e st)) = wco_counter (wco_step e st)"
  "override_counter (fst (report_realtime_status e st)) = override_counter (override_step e st)"
  "rpt_wco (sys_report (fst (report_realtime_status e st)))
     = (sr_work_coord_offset (env_sr e) \<and> wco_counter (wco_step e st) = 0)"
  "rpt_overrides (sys_report (fst (report_realtime_status e st))) = False"
  by (simp_all add: rrs_fst override_step_wco_step rpt_clear_def)

text \<open>One call brings the field one call nearer, or writes it and reloads the counter.\<close>

lemma wco_due_step:
  assumes "sr_work_coord_offset (env_sr e)" and "wco_interval (active_state (env_state e)) = I"
  shows "wco_due I (fst (report_realtime_status e st))
           = (if wco_due I st = 0 then I - 1 else wco_due I st - 1)"
proof -
  have I: "I = 30 \<or> I = 10" using interval_cases(1) [of "active_state (env_state e)"] assms(2) by simp
  let ?c' = "wco_counter (wco_step e st)"
  have next_due: "wco_due I (fst (report_realtime_status e st)) = unat ?c'"
    using assms(1) by (simp add: wco_due_def rrs_next unat_eq_0)
  show ?thesis
  proof (cases "0 < wco_counter st \<and> \<not> rpt_wco (sys_report st)")
    case True
    then have "wco_counter st \<noteq> 0" by auto
    then show ?thesis
      using True assms(1) next_due
      by (simp add: wco_step_def wco_due_def unat_counter_dec unat_eq_0)
  next
    case False
    then have c': "unat ?c' = I - 1"
      using assms I by (auto simp add: wco_step_def)
    from False have "wco_due I st = 0 \<or> wco_due I st = I"
      by (auto simp add: wco_due_def word_greater_zero_iff)
    then show ?thesis using c' next_due I by auto
  qed
qed

lemma wco_wrote_due:
  assumes "sr_work_coord_offset (env_sr e)" and "collab_free ''|WCO:'' e" and "0 < I"
  shows "wrote ''|WCO:'' (snd (report_realtime_status e st)) = (wco_due I st = 0)"
  using assms rrs_wrote_wco [OF assms(2), of st] wco_step_flag [OF assms(1), of st]
  by (auto simp add: wco_due_def unat_eq_0 unat_gt_0)

lemma override_due_step:
  assumes "sr_overrides (env_sr e)" and "override_interval (active_state (env_state e)) = I"
  shows "override_due (fst (report_realtime_status e st))
           = (if override_due st = 0 then I - 1 else override_due st - 1)"
proof -
  have I: "I = 20 \<or> I = 10"
    using interval_cases(2) [of "active_state (env_state e)"] assms(2) by simp
  let ?c' = "override_counter (override_step e st)"
  have next_due: "override_due (fst (report_realtime_status e st)) = unat ?c'"
    by (simp add: override_due_def rrs_next)
  show ?thesis
  proof (cases "0 < override_counter st \<and> \<not> rpt_overrides (sys_report st)")
    case True
    then have "override_counter st \<noteq> 0" by auto
    then show ?thesis
      using True assms(1) next_due
      by (simp add: override_step_def override_due_def unat_counter_dec unat_eq_0)
  next
    case False
    then have c': "unat ?c' = I - 1"
      using assms I by (auto simp add: override_step_def)
    from False have "override_due st = 0"
      by (auto simp add: override_due_def word_greater_zero_iff)
    then show ?thesis using c' next_due by simp
  qed
qed

lemma override_wrote_due:
  assumes "sr_overrides (env_sr e)" and "collab_free ''|Ov:'' e"
  shows "wrote ''|Ov:'' (snd (report_realtime_status e st)) = (override_due st = 0)"
  using assms rrs_wrote_ov [OF assms(2), of st]
  by (auto simp add: override_due_def override_step_def word_greater_zero_iff unat_eq_0)

subsection \<open>A run of calls\<close>

lemma run_reports_length [simp]: "length (run_reports st es) = length es"
  by (induction es arbitrary: st) (simp_all add: split_beta)

lemma run_reports_Cons:
  "run_reports st (e # es) =
     snd (report_realtime_status e st) # run_reports (fst (report_realtime_status e st)) es"
  by (simp add: split_beta)

lemma due_shift:
  fixes d I j :: nat
  assumes "0 < I"
  shows "((if d = 0 then I - 1 else d - 1) \<le> j \<and> I dvd (j - (if d = 0 then I - 1 else d - 1)))
       = (d \<le> Suc j \<and> I dvd (Suc j - d))"
proof (cases "d = 0")
  case True
  show ?thesis
  proof (cases "I - 1 \<le> j")
    case le: True
    have "Suc j = (j - (I - 1)) + I" using le assms by arith
    then have "(I dvd Suc j) = (I dvd (j - (I - 1)))" by (metis dvd_add_triv_right_iff)
    then show ?thesis using True le by simp
  next
    case gt: False
    then have "Suc j < I" by arith
    then have "\<not> I dvd Suc j" by (simp add: nat_dvd_not_less)
    then show ?thesis using True gt by simp
  qed
next
  case False
  then have "j - (d - 1) = Suc j - d" by arith
  moreover have "(d - 1 \<le> j) = (d \<le> Suc j)" using False by arith
  ultimately show ?thesis using False by simp
qed

text \<open>
  The calls of a run that write a field: the one that is due and every \<open>I\<close>-th after it.
\<close>

lemma due_closed_form:
  fixes due :: "report_static \<Rightarrow> nat"
  assumes "\<And>e st. e \<in> set es \<Longrightarrow>
             due (fst (report_realtime_status e st)) = (if due st = 0 then I - 1 else due st - 1)"
    and "\<And>e st. e \<in> set es \<Longrightarrow> wrote h (snd (report_realtime_status e st)) = (due st = 0)"
    and "0 < I" and "k < length es"
  shows "wrote h (run_reports st es ! k) = (due st \<le> k \<and> I dvd (k - due st))"
  using assms
proof (induction es arbitrary: st k)
  case Nil
  then show ?case by simp
next
  case (Cons e es)
  let ?st' = "fst (report_realtime_status e st)"
  have d': "due ?st' = (if due st = 0 then I - 1 else due st - 1)"
    using Cons.prems(1) [of e st] by simp
  have w0: "wrote h (snd (report_realtime_status e st)) = (due st = 0)"
    using Cons.prems(2) [of e st] by simp
  show ?case
  proof (cases k)
    case 0
    then show ?thesis using w0 by (simp add: run_reports_Cons del: run_reports.simps)
  next
    case (Suc j)
    have j: "j < length es" using Cons.prems(4) Suc by simp
    have "wrote h (run_reports ?st' es ! j) = (due ?st' \<le> j \<and> I dvd (j - due ?st'))"
      using Cons.prems(1) Cons.prems(2) by (intro Cons.IH [OF _ _ Cons.prems(3) j]) simp_all
    then show ?thesis
      using Suc d' due_shift [OF Cons.prems(3), of "due st" j]
      by (simp add: run_reports_Cons del: run_reports.simps)
  qed
qed

lemma wco_closed_form:
  assumes "held_wco busy es" and "k < length es"
  shows "wrote ''|WCO:'' (run_reports st es ! k)
           = (wco_due (wco_interval busy) st \<le> k
              \<and> wco_interval busy dvd (k - wco_due (wco_interval busy) st))"
proof (rule due_closed_form [OF _ _ interval_pos(1) assms(2)])
  fix e :: "'a env" and s
  assume "e \<in> set es"
  then have e: "sr_work_coord_offset (env_sr e)" "collab_free ''|WCO:'' e"
    "wco_interval (active_state (env_state e)) = wco_interval busy"
    using assms(1) by (simp_all add: held_wco_def)
  show "wco_due (wco_interval busy) (fst (report_realtime_status e s))
      = (if wco_due (wco_interval busy) s = 0 then wco_interval busy - 1
         else wco_due (wco_interval busy) s - 1)"
    by (rule wco_due_step [OF e(1) e(3)])
  show "wrote ''|WCO:'' (snd (report_realtime_status e s)) = (wco_due (wco_interval busy) s = 0)"
    by (rule wco_wrote_due [OF e(1) e(2) interval_pos(1)])
qed

lemma override_closed_form:
  assumes "held_overrides busy es" and "k < length es"
  shows "wrote ''|Ov:'' (run_reports st es ! k)
           = (override_due st \<le> k \<and> override_interval busy dvd (k - override_due st))"
proof (rule due_closed_form [OF _ _ interval_pos(2) assms(2)])
  fix e :: "'a env" and s
  assume "e \<in> set es"
  then have e: "sr_overrides (env_sr e)" "collab_free ''|Ov:'' e"
    "override_interval (active_state (env_state e)) = override_interval busy"
    using assms(1) by (simp_all add: held_overrides_def)
  show "override_due (fst (report_realtime_status e s))
      = (if override_due s = 0 then override_interval busy - 1 else override_due s - 1)"
    by (rule override_due_step [OF e(1) e(3)])
  show "wrote ''|Ov:'' (snd (report_realtime_status e s)) = (override_due s = 0)"
    by (rule override_wrote_due [OF e(1) e(2)])
qed

subsection \<open>Windows of calls\<close>

lemma residue_in_window:
  fixes I c i :: nat
  assumes "c < I"
  shows "\<exists>k. i \<le> k \<and> k < i + I \<and> k mod I = c"
proof (cases "i mod I \<le> c")
  case True
  have "(i + (c - i mod I)) mod I = (i mod I + (c - i mod I)) mod I"
    by (simp add: mod_add_left_eq)
  also have "\<dots> = c" using True assms by simp
  finally have "(i + (c - i mod I)) mod I = c" .
  moreover have "i + (c - i mod I) < i + I" using assms by simp
  ultimately show ?thesis by (intro exI [of _ "i + (c - i mod I)"]) simp
next
  case False
  then have lt: "c < i mod I" by simp
  have "(i + (I - i mod I + c)) mod I = (i mod I + (I - i mod I + c)) mod I"
    by (simp add: mod_add_left_eq)
  also have "i mod I + (I - i mod I + c) = I + c"
  proof -
    have "i mod I < I" using assms by simp
    then show ?thesis by arith
  qed
  also have "(I + c) mod I = c" using assms by simp
  finally have "(i + (I - i mod I + c)) mod I = c" .
  moreover have "i + (I - i mod I + c) < i + I" using lt assms by simp
  ultimately show ?thesis by (intro exI [of _ "i + (I - i mod I + c)"]) simp
qed

text \<open>Whatever call is due first, two calls that write the field are \<open>I\<close> calls apart.\<close>

lemma at_most_once_in_window:
  fixes I d n :: nat and f :: "nat \<Rightarrow> bool"
  assumes cf: "\<forall>k<n. f k = (d \<le> k \<and> I dvd (k - d))" and "0 < I"
  shows "\<forall>i j k. i \<le> j \<and> j < k \<and> k < i + (I - 1) \<and> k < n \<longrightarrow> \<not> (f j \<and> f k)"
proof (intro allI impI)
  fix i j k assume a: "i \<le> j \<and> j < k \<and> k < i + (I - 1) \<and> k < n"
  show "\<not> (f j \<and> f k)"
  proof
    assume "f j \<and> f k"
    then have jk: "d \<le> j" "I dvd (j - d)" "I dvd (k - d)" using cf a by auto
    have eq: "k - j = (k - d) - (j - d)" using jk(1) a by arith
    have "I dvd ((k - d) - (j - d))" using jk(3) jk(2) by (rule dvd_diff_nat)
    then have "I dvd (k - j)" by (simp only: eq)
    moreover have "0 < k - j" using a by simp
    ultimately have "I \<le> k - j" by (rule dvd_imp_le)
    then show False using a by arith
  qed
qed

text \<open>When the field is due within the first \<open>I\<close> calls, every \<open>I\<close> calls hold one.\<close>

lemma at_least_once_in_window:
  fixes I d n :: nat and f :: "nat \<Rightarrow> bool"
  assumes cf: "\<forall>k<n. f k = (d \<le> k \<and> I dvd (k - d))" and "d < I"
  shows "\<forall>i. i + I \<le> n \<longrightarrow> (\<exists>k. i \<le> k \<and> k < i + I \<and> f k)"
proof (intro allI impI)
  fix i assume n: "i + I \<le> n"
  show "\<exists>k. i \<le> k \<and> k < i + I \<and> f k"
  proof (cases "i \<le> d")
    case True
    have "d < n" using assms(2) n by simp
    then have "f d" using cf by simp
    then show ?thesis using True assms(2) by (intro exI [of _ d]) simp
  next
    case False
    from residue_in_window [OF assms(2), of i] obtain k where
      k: "i \<le> k" "k < i + I" "k mod I = d" by blast
    have dk: "d \<le> k" using False k(1) by simp
    have "k mod I = d mod I" using k(3) assms(2) by simp
    then have "I dvd (k - d)" using dk by (metis mod_eq_dvd_iff_nat)
    moreover have "k < n" using k(2) n by simp
    ultimately have "f k" using cf dk by simp
    then show ?thesis using k by blast
  qed
qed

subsection \<open>The refresh counters over a run of calls\<close>

text \<open>
  Claim C2, as amended. Take consecutive calls of \<open>report_realtime_status\<close> with WCO
  (respectively override) reporting enabled, the machine held in an active state (or held
  out of them), and no dirty flag set between the calls. Whatever the statics at the start,
  the WCO (respectively overrides) field appears at most once in any window of
  \<open>interval - 1\<close> consecutive calls. It appears at least once in every \<open>interval\<close>
  consecutive calls when, at the start, the WCO flag is pending or the WCO counter is not
  zero and below the interval (respectively the overrides flag is set or the override
  counter is below the interval). The interval is the busy one in an active state and the
  idle one otherwise, and the busy interval is at least the idle interval for both counters.
\<close>

theorem refresh_counter_windows:
  "(held_wco busy es \<longrightarrow>
      (\<forall>i j k. i \<le> j \<and> j < k \<and> k < i + (wco_interval busy - 1) \<and> k < length es \<longrightarrow>
         \<not> (wrote ''|WCO:'' (run_reports st es ! j) \<and> wrote ''|WCO:'' (run_reports st es ! k))))
   \<and> (held_wco busy es
        \<and> (rpt_wco (sys_report st)
            \<or> (0 < unat (wco_counter st) \<and> unat (wco_counter st) < wco_interval busy)) \<longrightarrow>
      (\<forall>i. i + wco_interval busy \<le> length es \<longrightarrow>
         (\<exists>k. i \<le> k \<and> k < i + wco_interval busy \<and> wrote ''|WCO:'' (run_reports st es ! k))))
   \<and> (held_overrides busy es \<longrightarrow>
      (\<forall>i j k. i \<le> j \<and> j < k \<and> k < i + (override_interval busy - 1) \<and> k < length es \<longrightarrow>
         \<not> (wrote ''|Ov:'' (run_reports st es ! j) \<and> wrote ''|Ov:'' (run_reports st es ! k))))
   \<and> (held_overrides busy es
        \<and> (rpt_overrides (sys_report st) \<or> unat (override_counter st) < override_interval busy) \<longrightarrow>
      (\<forall>i. i + override_interval busy \<le> length es \<longrightarrow>
         (\<exists>k. i \<le> k \<and> k < i + override_interval busy \<and> wrote ''|Ov:'' (run_reports st es ! k))))
   \<and> wco_interval False \<le> wco_interval True
   \<and> override_interval False \<le> override_interval True"
proof (intro conjI impI)
  assume h: "held_wco busy es"
  have "\<forall>k<length es. wrote ''|WCO:'' (run_reports st es ! k)
      = (wco_due (wco_interval busy) st \<le> k
         \<and> wco_interval busy dvd (k - wco_due (wco_interval busy) st))"
    using wco_closed_form [OF h] by blast
  from at_most_once_in_window [OF this interval_pos(1)]
  show "\<forall>i j k. i \<le> j \<and> j < k \<and> k < i + (wco_interval busy - 1) \<and> k < length es \<longrightarrow>
      \<not> (wrote ''|WCO:'' (run_reports st es ! j) \<and> wrote ''|WCO:'' (run_reports st es ! k))" .
next
  assume a: "held_wco busy es
      \<and> (rpt_wco (sys_report st)
          \<or> (0 < unat (wco_counter st) \<and> unat (wco_counter st) < wco_interval busy))"
  then have d: "wco_due (wco_interval busy) st < wco_interval busy"
    using interval_pos(1) [of busy] by (auto simp add: wco_due_def)
  have "\<forall>k<length es. wrote ''|WCO:'' (run_reports st es ! k)
      = (wco_due (wco_interval busy) st \<le> k
         \<and> wco_interval busy dvd (k - wco_due (wco_interval busy) st))"
    using wco_closed_form [of busy es] a by blast
  from at_least_once_in_window [OF this d]
  show "\<forall>i. i + wco_interval busy \<le> length es \<longrightarrow>
      (\<exists>k. i \<le> k \<and> k < i + wco_interval busy \<and> wrote ''|WCO:'' (run_reports st es ! k))" .
next
  assume h: "held_overrides busy es"
  have "\<forall>k<length es. wrote ''|Ov:'' (run_reports st es ! k)
      = (override_due st \<le> k \<and> override_interval busy dvd (k - override_due st))"
    using override_closed_form [OF h] by blast
  from at_most_once_in_window [OF this interval_pos(2)]
  show "\<forall>i j k. i \<le> j \<and> j < k \<and> k < i + (override_interval busy - 1) \<and> k < length es \<longrightarrow>
      \<not> (wrote ''|Ov:'' (run_reports st es ! j) \<and> wrote ''|Ov:'' (run_reports st es ! k))" .
next
  assume a: "held_overrides busy es
      \<and> (rpt_overrides (sys_report st) \<or> unat (override_counter st) < override_interval busy)"
  then have d: "override_due st < override_interval busy"
    using interval_pos(2) [of busy] by (auto simp add: override_due_def)
  have "\<forall>k<length es. wrote ''|Ov:'' (run_reports st es ! k)
      = (override_due st \<le> k \<and> override_interval busy dvd (k - override_due st))"
    using override_closed_form [of busy es] a by blast
  from at_least_once_in_window [OF this d]
  show "\<forall>i. i + override_interval busy \<le> length es \<longrightarrow>
      (\<exists>k. i \<le> k \<and> k < i + override_interval busy \<and> wrote ''|Ov:'' (run_reports st es ! k))" .
next
  show "wco_interval False \<le> wco_interval True"
    by (simp add: wco_interval_def REPORT_WCO_REFRESH_BUSY_COUNT_def
        REPORT_WCO_REFRESH_IDLE_COUNT_def)
next
  show "override_interval False \<le> override_interval True"
    by (simp add: override_interval_def REPORT_OVERRIDE_REFRESH_BUSY_COUNT_def
        REPORT_OVERRIDE_REFRESH_IDLE_COUNT_def)
qed

lemma env_run_facts:
  "sr_work_coord_offset (env_sr env_run)" "sr_overrides (env_sr env_run)"
  "active_state (env_state env_run)"
  "collab_free ''|WCO:'' env_run" "collab_free ''|Ov:'' env_run"
  by (simp_all add: env_run_def env_plain_def sr_plain_def active_state_def collab_free_def
      fmt_plain_def report_plugin_def)

lemma env_run_held:
  "held_wco True (replicate n env_run)" "held_overrides True (replicate n env_run)"
  by (simp_all add: held_wco_def held_overrides_def env_run_facts)

text \<open>
  C2 for sixty calls on a running machine. From statics in mid-run (WCO counter 7,
  override counter 3, no flag set) each field appears in the window that starts at the
  call after the one that wrote it and not twice within an interval; and from the statics
  of initialisation, which the hypothesis on the start leaves out, the WCO field still does
  not appear twice within an interval.
\<close>

theorem refresh_counter_windows_witness:
  "held_wco True (replicate 60 env_run) \<and> held_overrides True (replicate 60 env_run)
   \<and> 0 < unat (wco_counter static_midrun)
   \<and> unat (wco_counter static_midrun) < wco_interval True
   \<and> unat (override_counter static_midrun) < override_interval True
   \<and> (\<exists>k. 8 \<le> k \<and> k < 8 + wco_interval True
          \<and> wrote ''|WCO:'' (run_reports static_midrun (replicate 60 env_run) ! k))
   \<and> \<not> (wrote ''|WCO:'' (run_reports static_midrun (replicate 60 env_run) ! 7)
        \<and> wrote ''|WCO:'' (run_reports static_midrun (replicate 60 env_run) ! 30))
   \<and> \<not> (wrote ''|WCO:'' (run_reports static_init (replicate 60 env_run) ! 30)
        \<and> wrote ''|WCO:'' (run_reports static_init (replicate 60 env_run) ! 45))
   \<and> (\<exists>k. 4 \<le> k \<and> k < 4 + override_interval True
          \<and> wrote ''|Ov:'' (run_reports static_midrun (replicate 60 env_run) ! k))
   \<and> \<not> (wrote ''|Ov:'' (run_reports static_midrun (replicate 60 env_run) ! 3)
        \<and> wrote ''|Ov:'' (run_reports static_midrun (replicate 60 env_run) ! 20))"
proof -
  note h = env_run_held [of 60]
  have w: "0 < unat (wco_counter static_midrun)"
    "unat (wco_counter static_midrun) < wco_interval True"
    by (simp_all add: static_midrun_def wco_interval_def REPORT_WCO_REFRESH_BUSY_COUNT_def)
  have v: "unat (override_counter static_midrun) < override_interval True"
    by (simp add: static_midrun_def override_interval_def REPORT_OVERRIDE_REFRESH_BUSY_COUNT_def)
  note r = refresh_counter_windows [of True "replicate 60 env_run" static_midrun]
  note q = refresh_counter_windows [of True "replicate 60 env_run" static_init]
  have a1: "8 + wco_interval True \<le> length (replicate 60 env_run)"
    by (simp add: wco_interval_def REPORT_WCO_REFRESH_BUSY_COUNT_def)
  have a2: "(7::nat) \<le> 7 \<and> (7::nat) < 30 \<and> (30::nat) < 7 + (wco_interval True - 1)
      \<and> 30 < length (replicate 60 env_run)"
    by (simp add: wco_interval_def REPORT_WCO_REFRESH_BUSY_COUNT_def)
  have a3: "(30::nat) \<le> 30 \<and> (30::nat) < 45 \<and> (45::nat) < 30 + (wco_interval True - 1)
      \<and> 45 < length (replicate 60 env_run)"
    by (simp add: wco_interval_def REPORT_WCO_REFRESH_BUSY_COUNT_def)
  have a4: "4 + override_interval True \<le> length (replicate 60 env_run)"
    by (simp add: override_interval_def REPORT_OVERRIDE_REFRESH_BUSY_COUNT_def)
  have a5: "(3::nat) \<le> 3 \<and> (3::nat) < 20 \<and> (20::nat) < 3 + (override_interval True - 1)
      \<and> 20 < length (replicate 60 env_run)"
    by (simp add: override_interval_def REPORT_OVERRIDE_REFRESH_BUSY_COUNT_def)
  from r h w a1 have c1: "\<exists>k. 8 \<le> k \<and> k < 8 + wco_interval True
      \<and> wrote ''|WCO:'' (run_reports static_midrun (replicate 60 env_run) ! k)" by blast
  from r h a2 have c2: "\<not> (wrote ''|WCO:'' (run_reports static_midrun (replicate 60 env_run) ! 7)
      \<and> wrote ''|WCO:'' (run_reports static_midrun (replicate 60 env_run) ! 30))" by blast
  from q h a3 have c3: "\<not> (wrote ''|WCO:'' (run_reports static_init (replicate 60 env_run) ! 30)
      \<and> wrote ''|WCO:'' (run_reports static_init (replicate 60 env_run) ! 45))" by blast
  from r h v a4 have c4: "\<exists>k. 4 \<le> k \<and> k < 4 + override_interval True
      \<and> wrote ''|Ov:'' (run_reports static_midrun (replicate 60 env_run) ! k)" by blast
  from r h a5 have c5: "\<not> (wrote ''|Ov:'' (run_reports static_midrun (replicate 60 env_run) ! 3)
      \<and> wrote ''|Ov:'' (run_reports static_midrun (replicate 60 env_run) ! 20))" by blast
  from h w v c1 c2 c3 c4 c5 show ?thesis by blast
qed

text \<open>
  Where the claim C2 fails as stated: right after \<open>report_init_message\<close> the WCO counter is
  zero but the WCO flag is not pending, so the first call only reloads the counter.
\<close>

lemma map_all_False:
  "length xs = n \<Longrightarrow> \<forall>k<n. \<not> f (xs ! k) \<Longrightarrow> map f xs = replicate n False"
  by (simp add: list_eq_iff_nth_eq)

lemma env_idle_facts:
  "sr_overrides (env_sr env_idle)" "\<not> active_state (env_state env_idle)"
  "collab_free ''|Ov:'' env_idle"
  by (simp_all add: env_idle_def env_run_def env_plain_def sr_plain_def active_state_def
      collab_free_def fmt_plain_def report_plugin_def)

lemma first_call_after_init_ov:
  "override_counter (fst (report_realtime_status env_run static_init)) = 19"
  "\<not> rpt_overrides (sys_report (fst (report_realtime_status env_run static_init)))"
  by (simp_all add: rrs_next env_run_facts override_step_def static_init_def rpt_clear_def
      override_interval_def REPORT_OVERRIDE_REFRESH_BUSY_COUNT_def)

text \<open>
  Counterexample to C2 as stated. With WCO reporting enabled, the machine running and no
  dirty flag set, none of the first thirty calls (the busy interval) after initialisation
  writes the WCO field. And when the machine then stays at rest, with override reporting
  enabled and no dirty flag set, none of the next ten calls (the idle interval) writes the
  overrides field: the counter still holds the busy reload of the first call.
\<close>

theorem refresh_windows_not_as_stated:
  "sr_work_coord_offset (env_sr env_run) \<and> active_state (env_state env_run)
   \<and> \<not> rpt_value (sys_report static_init)
   \<and> REPORT_WCO_REFRESH_BUSY_COUNT = 30
   \<and> map (wrote ''|WCO:'') (run_reports static_init (replicate 30 env_run)) = replicate 30 False
   \<and> sr_overrides (env_sr env_idle) \<and> \<not> active_state (env_state env_idle)
   \<and> REPORT_OVERRIDE_REFRESH_IDLE_COUNT = 10
   \<and> map (wrote ''|Ov:'')
        (run_reports (fst (report_realtime_status env_run static_init)) (replicate 10 env_idle))
       = replicate 10 False"
proof -
  let ?st1 = "fst (report_realtime_status env_run static_init)"
  have due: "wco_due (wco_interval True) static_init = 30"
    by (simp add: wco_due_def static_init_def rpt_clear_def wco_interval_def
        REPORT_WCO_REFRESH_BUSY_COUNT_def)
  have "\<forall>k<30. \<not> wrote ''|WCO:'' (run_reports static_init (replicate 30 env_run) ! k)"
    using wco_closed_form [OF env_run_held(1) [of 30], of _ static_init] due by simp
  then have wco: "map (wrote ''|WCO:'') (run_reports static_init (replicate 30 env_run))
      = replicate 30 False"
    by (intro map_all_False) simp_all
  have idle: "held_overrides False (replicate 10 env_idle)"
    by (simp add: held_overrides_def env_idle_facts)
  have due1: "override_due ?st1 = 19"
    by (simp add: override_due_def first_call_after_init_ov)
  have "\<forall>k<10. \<not> wrote ''|Ov:'' (run_reports ?st1 (replicate 10 env_idle) ! k)"
    using override_closed_form [OF idle, of _ ?st1] due1 by simp
  then have ov: "map (wrote ''|Ov:'') (run_reports ?st1 (replicate 10 env_idle))
      = replicate 10 False"
    by (intro map_all_False) simp_all
  have "\<not> rpt_value (sys_report static_init)"
    by (simp add: static_init_def rpt_clear_def rpt_value_def)
  with wco ov show ?thesis
    by (simp add: env_run_facts env_idle_facts REPORT_WCO_REFRESH_BUSY_COUNT_def
        REPORT_OVERRIDE_REFRESH_IDLE_COUNT_def)
qed

text \<open>
  The hypothesis on the start is needed: when the WCO flag is clear and the counter is zero
  or not below the interval, the first \<open>interval\<close> calls pass without the field.
\<close>

lemma late_start_leaves_a_gap:
  assumes "held_wco busy es" and "\<not> rpt_wco (sys_report st)"
    and "wco_counter st = 0 \<or> wco_interval busy \<le> unat (wco_counter st)"
    and "k < wco_interval busy" and "k < length es"
  shows "\<not> wrote ''|WCO:'' (run_reports st es ! k)"
proof -
  have "wco_interval busy \<le> wco_due (wco_interval busy) st"
    using assms(2) assms(3) by (auto simp add: wco_due_def unat_eq_0)
  then show ?thesis using wco_closed_form [OF assms(1) assms(5), of st] assms(4) by simp
qed

subsection \<open>The first report after initialisation\<close>





subsection \<open>The shape of the line\<close>

lemma uitoa_small: "uitoa 1 = ''1''" "uitoa 2 = ''2''"
  by (simp_all add: uitoa_def uitoa_nat.simps digit_char_def)

lemma uitoa_no_newline [simp]: "CHR 0x0A \<notin> set (uitoa w)"
  using uitoa_digits [of w] by auto

lemma status_line_parts:
  "status_line e st =
     ''<'' @ state_segment e st @ concat (report_position e)
       @ concat (report_buffer e @ report_line_number e @ report_feed_speed e @ report_pin_state e
           @ report_changed e (sys_report (override_step e (wco_step e st)))
           @ report_plugin e (sys_report (override_step e (wco_step e st)))
           @ report_fw (sys_report (override_step e (wco_step e st))))
       @ ''>'' @ ASCII_EOL"
  by (simp add: status_line_def rrs_out state_segment_def)

lemma state_segment_shape:
  "\<exists>tok sub. tok \<in> set state_tokens \<and> (sub = [] \<or> (\<exists>n. sub = '':'' @ uitoa n))
     \<and> state_segment e st = tok @ sub"
proof (cases "display_state e")
  case STATE_IDLE
  then show ?thesis
    by (intro exI [of _ "''Idle''"] exI [of _ "[]"])
      (simp add: state_segment_def report_state_def state_tokens_def)
next
  case STATE_ALARM
  then show ?thesis
    by (intro exI [of _ "''Alarm''"]
        exI [of _ "if (rpt_all (sys_report st) \<or> sr_alarm_substate (env_sr e))
                      \<and> sys_alarm (env_sys e) \<noteq> 0
                   then '':'' @ uitoa (sys_alarm (env_sys e)) else []"])
      (auto simp add: state_segment_def report_state_def state_tokens_def appendbuf_def)
next
  case STATE_CHECK_MODE
  then show ?thesis
    by (intro exI [of _ "''Check''"] exI [of _ "[]"])
      (simp add: state_segment_def report_state_def state_tokens_def)
next
  case STATE_HOMING
  then show ?thesis
    by (intro exI [of _ "''Home''"] exI [of _ "[]"])
      (simp add: state_segment_def report_state_def state_tokens_def)
next
  case STATE_CYCLE
  have seg: "state_segment e st = ''Run''
      @ (if sys_feed_hold_pending (env_sys e) then '':1''
         else if probing_latch e (probing st) then '':2'' else [])"
    using STATE_CYCLE by (simp add: state_segment_def report_state_def Let_def)
  consider (hold) "sys_feed_hold_pending (env_sys e)"
    | (probe) "\<not> sys_feed_hold_pending (env_sys e)" "probing_latch e (probing st)"
    | (plain) "\<not> sys_feed_hold_pending (env_sys e)" "\<not> probing_latch e (probing st)"
    by blast
  then show ?thesis
  proof cases
    case hold
    with seg have "state_segment e st = ''Run'' @ ('':'' @ uitoa 1)" by (simp add: uitoa_small)
    then show ?thesis
      by (intro exI [of _ "''Run''"] exI [of _ "'':'' @ uitoa 1"]) (auto simp add: state_tokens_def)
  next
    case probe
    with seg have "state_segment e st = ''Run'' @ ('':'' @ uitoa 2)" by (simp add: uitoa_small)
    then show ?thesis
      by (intro exI [of _ "''Run''"] exI [of _ "'':'' @ uitoa 2"]) (auto simp add: state_tokens_def)
  next
    case plain
    with seg have "state_segment e st = ''Run''" by simp
    then show ?thesis
      by (intro exI [of _ "''Run''"] exI [of _ "[]"]) (simp add: state_tokens_def)
  qed
next
  case STATE_HOLD
  then show ?thesis
    by (intro exI [of _ "''Hold''"] exI [of _ "'':'' @ uitoa (sys_holding_state (env_sys e) - 1)"])
      (auto simp add: state_segment_def report_state_def state_tokens_def appendbuf_def)
next
  case STATE_JOG
  then show ?thesis
    by (intro exI [of _ "''Jog''"] exI [of _ "[]"])
      (simp add: state_segment_def report_state_def state_tokens_def)
next
  case STATE_SAFETY_DOOR
  then show ?thesis
    by (intro exI [of _ "''Door''"] exI [of _ "'':'' @ uitoa (sys_parking_state (env_sys e))"])
      (auto simp add: state_segment_def report_state_def state_tokens_def appendbuf_def)
next
  case STATE_SLEEP
  then show ?thesis
    by (intro exI [of _ "''Sleep''"] exI [of _ "[]"])
      (simp add: state_segment_def report_state_def state_tokens_def)
next
  case STATE_ESTOP
  then show ?thesis
    by (intro exI [of _ "''Alarm''"]
        exI [of _ "if (rpt_all (sys_report st) \<or> sr_alarm_substate (env_sr e))
                      \<and> sys_alarm (env_sys e) \<noteq> 0
                   then '':'' @ uitoa (sys_alarm (env_sys e)) else []"])
      (auto simp add: state_segment_def report_state_def state_tokens_def appendbuf_def)
next
  case STATE_TOOL_CHANGE
  then show ?thesis
    by (intro exI [of _ "''Tool''"] exI [of _ "[]"])
      (simp add: state_segment_def report_state_def state_tokens_def)
qed

lemma no_newline_if: "c \<notin> set xs \<Longrightarrow> c \<notin> set ys \<Longrightarrow> c \<notin> set (if b then xs else ys)"
  by simp

lemma no_newline_append: "c \<notin> set xs \<Longrightarrow> c \<notin> set ys \<Longrightarrow> c \<notin> set (xs @ ys)"
  by simp

lemma state_segment_no_newline: "CHR 0x0A \<notin> set (state_segment e st)"
  by (auto simp add: state_segment_def report_state_def appendbuf_def Let_def split: sys_state.splits)

lemma position_no_newline: "collab_no_newline e \<Longrightarrow> CHR 0x0A \<notin> set (concat (report_position e))"
  by (auto simp add: report_position_def collab_no_newline_def)

lemma buffer_no_newline: "CHR 0x0A \<notin> set (concat (report_buffer e))"
  by (auto simp add: report_buffer_def)

lemma line_number_cases:
  "report_line_number e = [] \<or> (\<exists>ln. report_line_number e = [''|Ln:'' @ uitoa ln])"
  by (auto simp add: report_line_number_def appendbuf_def split: option.splits)

lemma line_number_no_newline: "CHR 0x0A \<notin> set (concat (report_line_number e))"
  using line_number_cases [of e] by auto

lemma feed_speed_no_newline:
  "collab_no_newline e \<Longrightarrow> CHR 0x0A \<notin> set (concat (report_feed_speed e))"
  by (auto simp add: report_feed_speed_def appendbuf_def collab_no_newline_def split: option.splits)

lemma axis_letters_no_newline [simp]: "CHR 0x0A \<notin> set (axis_signals_tostring a)"
  by (simp add: axis_signals_tostring_def)

lemma pin_letters_no_newline: "CHR 0x0A \<notin> set (pin_letters e)"
  unfolding pin_letters_def Let_def
  by (intro no_newline_append no_newline_if) simp_all

lemma pin_state_no_newline: "CHR 0x0A \<notin> set (concat (report_pin_state e))"
  by (auto simp add: report_pin_state_def pin_letters_no_newline)

lemma activity_letters_no_newline: "CHR 0x0A \<notin> set (activity_letters e r)"
  unfolding activity_letters_def Let_def
  by (intro no_newline_append no_newline_if) simp_all

lemma map_coord_no_newline [simp]: "CHR 0x0A \<notin> set (map_coord_system c)"
  by (simp add: map_coord_system_def Let_def)

lemma fields_no_newline:
  "collab_no_newline e \<Longrightarrow> CHR 0x0A \<notin> set (concat (wco_field e r))"
  "CHR 0x0A \<notin> set (concat (gwco_field e r))"
  "CHR 0x0A \<notin> set (concat (overrides_field e r))"
  "CHR 0x0A \<notin> set (concat (activity_field e r))"
  "CHR 0x0A \<notin> set (concat (scaling_field e r))"
  "CHR 0x0A \<notin> set (concat (mpg_field e r))"
  "CHR 0x0A \<notin> set (concat (homed_field e r))"
  "CHR 0x0A \<notin> set (concat (xmode_field e r))"
  "CHR 0x0A \<notin> set (concat (tool_field e r))"
  "CHR 0x0A \<notin> set (concat (tlr_field e r))"
  by (auto simp add: wco_field_def gwco_field_def overrides_field_def activity_field_def
      scaling_field_def mpg_field_def homed_field_def xmode_field_def tool_field_def tlr_field_def
      appendbuf_def Let_def collab_no_newline_def activity_letters_no_newline)

lemma changed_no_newline:
  "collab_no_newline e \<Longrightarrow> CHR 0x0A \<notin> set (concat (report_changed e r))"
  using fields_no_newline [of e r] by (simp add: report_changed_def del: set_concat)

lemma plugin_no_newline:
  "collab_no_newline e \<Longrightarrow> CHR 0x0A \<notin> set (concat (report_plugin e r))"
  by (simp add: collab_no_newline_def)

lemma fw_no_newline: "CHR 0x0A \<notin> set (concat (report_fw r))"
  by (auto simp add: report_fw_def)

text \<open>
  Claim C1. For every snapshot, configuration and statics, one call writes a line that is
  \<open><\<close>, one token of the fixed enumeration, an optional sub-state (a colon and a number),
  the position field (\<open>|MPos:\<close> or \<open>|WPos:\<close> and the axis values), the optional fields,
  and \<open>>\<close> followed by EOL. It is one line: when the formatters and the extension
  callback write no line feed, there is none before the closing EOL.
\<close>

theorem status_line_shape:
  "\<exists>tok sub rest.
     tok \<in> set state_tokens \<and> (sub = [] \<or> (\<exists>n. sub = '':'' @ uitoa n))
     \<and> status_line e st =
         ''<'' @ tok @ sub
         @ (if sr_machine_position (env_sr e) then ''|MPos:'' else ''|WPos:'')
         @ get_axis_values (env_fmt e) (print_position e)
         @ rest @ ''>'' @ ASCII_EOL
     \<and> (collab_no_newline e \<longrightarrow>
          CHR 0x0A \<notin> set (''<'' @ tok @ sub
            @ (if sr_machine_position (env_sr e) then ''|MPos:'' else ''|WPos:'')
            @ get_axis_values (env_fmt e) (print_position e) @ rest @ ''>''))"
proof -
  let ?rpt = "sys_report (override_step e (wco_step e st))"
  let ?rest = "concat (report_buffer e @ report_line_number e @ report_feed_speed e
      @ report_pin_state e @ report_changed e ?rpt @ report_plugin e ?rpt @ report_fw ?rpt)"
  from state_segment_shape [of e st] obtain tok sub where
    ts: "tok \<in> set state_tokens" "sub = [] \<or> (\<exists>n. sub = '':'' @ uitoa n)"
      "state_segment e st = tok @ sub" by blast
  have pos: "concat (report_position e) =
      (if sr_machine_position (env_sr e) then ''|MPos:'' else ''|WPos:'')
      @ get_axis_values (env_fmt e) (print_position e)"
    by (simp add: report_position_def)
  have line: "status_line e st = ''<'' @ tok @ sub
      @ (if sr_machine_position (env_sr e) then ''|MPos:'' else ''|WPos:'')
      @ get_axis_values (env_fmt e) (print_position e) @ ?rest @ ''>'' @ ASCII_EOL"
    using status_line_parts [of e st] ts(3) pos by simp
  have nl: "CHR 0x0A \<notin> set (''<'' @ tok @ sub
      @ (if sr_machine_position (env_sr e) then ''|MPos:'' else ''|WPos:'')
      @ get_axis_values (env_fmt e) (print_position e) @ ?rest @ ''>'')"
    if c: "collab_no_newline e"
  proof -
    have "CHR 0x0A \<notin> set (tok @ sub)"
      using state_segment_no_newline [of e st] ts(3) by simp
    moreover have "CHR 0x0A \<notin> set ((if sr_machine_position (env_sr e) then ''|MPos:'' else ''|WPos:'')
      @ get_axis_values (env_fmt e) (print_position e))"
      using position_no_newline [OF c] pos by simp
    moreover have "CHR 0x0A \<notin> set ?rest"
      using buffer_no_newline [of e] line_number_no_newline [of e] feed_speed_no_newline [OF c]
        pin_state_no_newline [of e] changed_no_newline [OF c, of ?rpt]
        plugin_no_newline [OF c, of ?rpt] fw_no_newline [of ?rpt]
      by simp
    ultimately show ?thesis by simp
  qed
  from ts(1) ts(2) line nl show ?thesis by blast
qed

text \<open>
  The hypothesis of C1 holds for the machine at rest, and there the line is the one of the
  spec's scenario: \<open><Idle|MPos:0.000,0.000,0.000>\<close> and EOL.
\<close>

theorem status_line_shape_witness:
  "collab_no_newline env_plain
   \<and> status_line env_plain static_init = ''<Idle|MPos:0.000,0.000,0.000>'' @ ASCII_EOL
   \<and> (\<exists>tok sub rest. tok \<in> set state_tokens
        \<and> status_line env_plain static_init =
            ''<'' @ tok @ sub @ ''|MPos:'' @ ''0.000,0.000,0.000'' @ rest @ ''>'' @ ASCII_EOL
        \<and> CHR 0x0A \<notin> set (''<'' @ tok @ sub @ ''|MPos:'' @ ''0.000,0.000,0.000'' @ rest @ ''>''))"
proof -
  have c: "collab_no_newline env_plain"
    by (simp add: collab_no_newline_def env_plain_def fmt_plain_def report_plugin_def)
  have mp: "sr_machine_position (env_sr env_plain)"
    "get_axis_values (env_fmt env_plain) (print_position env_plain) = ''0.000,0.000,0.000''"
    by (simp_all add: env_plain_def sr_plain_def fmt_plain_def)
  have line: "status_line env_plain static_init = ''<Idle|MPos:0.000,0.000,0.000>'' @ ASCII_EOL"
    by (simp add: status_line_parts state_segment_def report_state_def display_state_def
        report_position_def report_buffer_def report_line_number_def report_feed_speed_def
        report_pin_state_def report_changed_def report_plugin_def report_fw_def
        override_step_def wco_step_def rpt_value_def rpt_clear_def
        env_plain_def sr_plain_def gc_plain_def fmt_plain_def static_init_def)
  from status_line_shape [of env_plain static_init] c mp
  have "\<exists>tok sub rest. tok \<in> set state_tokens
        \<and> status_line env_plain static_init =
            ''<'' @ tok @ sub @ ''|MPos:'' @ ''0.000,0.000,0.000'' @ rest @ ''>'' @ ASCII_EOL
        \<and> CHR 0x0A \<notin> set (''<'' @ tok @ sub @ ''|MPos:'' @ ''0.000,0.000,0.000'' @ rest @ ''>'')"
    by (simp only: if_True) blast
  with c line show ?thesis by blast
qed

subsection \<open>Sub-states\<close>

lemma status_line_after_state:
  "\<exists>rest. status_line e st = ''<'' @ state_segment e st @ CHR ''|'' # rest"
proof -
  have "\<exists>r. concat (report_position e) = CHR ''|'' # r"
    by (simp add: report_position_def)
  then show ?thesis using status_line_parts [of e st] by auto
qed

lemmas plain_defs = env_plain_def sr_plain_def sys_plain_def gc_plain_def hal_plain_def
  fmt_plain_def ax_none_def ctl_none_def static_init_def rpt_clear_def

lemmas part_defs = state_segment_def report_state_def display_state_def
  report_position_def report_buffer_def report_line_number_def report_feed_speed_def
  report_pin_state_def report_changed_def report_plugin_def report_fw_def
  override_step_def wco_step_def rpt_value_def probe_state_of_def probing_latch_def

text \<open>
  Claim C4, as amended. In Hold the token is always followed by a colon and the
  holding-stage value minus one (as an unsigned 32-bit number), and in SafetyDoor by a colon
  and the parking-stage number: no flag governs either. In Alarm (and EStop, which is shown
  as Alarm) the colon and the alarm code are appended exactly when the alarm code is not
  zero and alarm sub-state reporting or the report-all flag is on; otherwise the token
  stands alone. The line is \<open><\<close>, this segment, and the bar that opens the position
  field.
\<close>

theorem substate_detail:
  "(display_state e = STATE_HOLD \<longrightarrow>
      state_segment e st = ''Hold:'' @ uitoa (sys_holding_state (env_sys e) - 1))
   \<and> (display_state e = STATE_SAFETY_DOOR \<longrightarrow>
      state_segment e st = ''Door:'' @ uitoa (sys_parking_state (env_sys e)))
   \<and> (display_state e = STATE_ALARM \<or> display_state e = STATE_ESTOP \<longrightarrow>
      state_segment e st =
        (if (rpt_all (sys_report st) \<or> sr_alarm_substate (env_sr e)) \<and> sys_alarm (env_sys e) \<noteq> 0
         then ''Alarm:'' @ uitoa (sys_alarm (env_sys e)) else ''Alarm''))
   \<and> (\<exists>rest. status_line e st = ''<'' @ state_segment e st @ CHR ''|'' # rest)"
  using status_line_after_state [of e st]
  by (auto simp add: state_segment_def report_state_def appendbuf_def)

text \<open>
  C4 at three inputs: holding stage 2 gives \<open>Hold:1\<close>, parking stage 3 gives \<open>Door:3\<close>,
  alarm code 9 with alarm sub-state reporting gives \<open>Alarm:9\<close>.
\<close>

theorem substate_detail_witness:
  "display_state env_hold = STATE_HOLD \<and> state_segment env_hold static_init = ''Hold:1''
   \<and> display_state env_door = STATE_SAFETY_DOOR \<and> state_segment env_door static_init = ''Door:3''
   \<and> display_state env_alarm = STATE_ALARM \<and> state_segment env_alarm static_init = ''Alarm:9''"
proof -
  have d: "display_state env_hold = STATE_HOLD" "display_state env_door = STATE_SAFETY_DOOR"
    "display_state env_alarm = STATE_ALARM"
    by (simp_all add: display_state_def env_hold_def env_door_def env_alarm_def plain_defs)
  have v: "uitoa (sys_holding_state (env_sys env_hold) - 1) = ''1''"
    "uitoa (sys_parking_state (env_sys env_door)) = ''3''"
    "uitoa (sys_alarm (env_sys env_alarm)) = ''9''"
    "sr_alarm_substate (env_sr env_alarm)" "sys_alarm (env_sys env_alarm) \<noteq> 0"
    by (simp_all add: env_hold_def env_door_def env_alarm_def plain_defs uitoa_def
        uitoa_nat.simps digit_char_def)
  from substate_detail [of env_hold static_init] substate_detail [of env_door static_init]
    substate_detail [of env_alarm static_init] d v
  show ?thesis by simp
qed

text \<open>
  Counterexample to C4 as stated: with every reporting option off and no dirty flag set,
  so that whatever flag is meant to govern the Hold sub-state is disabled, the sub-state is
  still appended.
\<close>

theorem hold_substate_without_flag:
  "env_state env_hold = STATE_HOLD
   \<and> \<not> sr_alarm_substate (env_sr env_hold) \<and> \<not> sr_run_substate (env_sr env_hold)
   \<and> \<not> rpt_value (sys_report static_init)
   \<and> status_line env_hold static_init = ''<Hold:1|MPos:0.000,0.000,0.000>'' @ ASCII_EOL"
  by (simp add: status_line_parts part_defs env_hold_def plain_defs appendbuf_def uitoa_def
      uitoa_nat.simps digit_char_def)

text \<open>
  Claim C5, as amended. When the state shown is Run, the token is followed by \<open>:1\<close> when
  a feed hold is pending; otherwise by \<open>:2\<close> when a probing cycle is active and run
  sub-state reporting is enabled, or when \<open>:2\<close> was due at the previous Run report (the
  latch) and the probe now reads triggered; otherwise by nothing. The latch after the call
  is that second condition.
\<close>

theorem run_substate:
  assumes "display_state e = STATE_CYCLE"
  shows "state_segment e st = ''Run''
           @ (if sys_feed_hold_pending (env_sys e) then '':1''
              else if (sys_probing_state (env_sys e) = Probing_Active \<and> sr_run_substate (env_sr e))
                      \<or> (probing st \<and> prb_triggered (probe_state_of e))
              then '':2'' else [])
       \<and> probing (fst (report_realtime_status e st))
           = ((sys_probing_state (env_sys e) = Probing_Active \<and> sr_run_substate (env_sr e))
              \<or> (probing st \<and> prb_triggered (probe_state_of e)))"
  using assms
  by (auto simp add: state_segment_def report_state_def rrs_fst Let_def probing_latch_def)

text \<open>C5 where the latch is set and the probe reads triggered after the probing cycle.\<close>

theorem run_substate_witness:
  "display_state env_probed = STATE_CYCLE
   \<and> state_segment env_probed static_probing = ''Run:2''
   \<and> probing (fst (report_realtime_status env_probed static_probing))"
proof -
  have d: "display_state env_probed = STATE_CYCLE"
    by (simp add: display_state_def env_probed_def plain_defs)
  have v: "\<not> sys_feed_hold_pending (env_sys env_probed)" "probing static_probing"
    "prb_triggered (probe_state_of env_probed)"
    by (simp_all add: env_probed_def static_probing_def probe_state_of_def plain_defs)
  from run_substate [OF d, of static_probing] d v show ?thesis by simp
qed

text \<open>
  Counterexample to C5 as stated: an active probing cycle with no trigger yet shows a bare
  \<open>Run\<close> when run sub-state reporting is off, and \<open>Run:2\<close> is shown with no probing cycle
  active while the probe stays triggered.
\<close>

theorem run_substate_not_as_stated:
  "sys_probing_state (env_sys env_probing) = Probing_Active
   \<and> \<not> prb_triggered (probe_state_of env_probing)
   \<and> status_line env_probing static_init = ''<Run|MPos:0.000,0.000,0.000>'' @ ASCII_EOL
   \<and> sys_probing_state (env_sys env_probed) = Probing_Off
   \<and> \<not> sys_feed_hold_pending (env_sys env_probed)
   \<and> status_line env_probed static_probing = ''<Run:2|MPos:0.000,0.000,0.000>'' @ ASCII_EOL"
  by (simp add: status_line_parts part_defs env_probing_def env_probed_def static_probing_def
      plain_defs Let_def)

subsection \<open>The pin-state field\<close>

text \<open>
  Claim C10. With pin-state reporting and block delete enabled, no limit or control pin
  active, and the probe connected and not triggered, the call writes the pin-state field
  as the header \<open>|Pn:\<close> with no letter after it: the next thing on the line is the next
  field or the closing \<open>>\<close>.
\<close>

theorem empty_pin_field:
  assumes "sr_pin_state (env_sr e)" and "sys_block_delete_enabled (env_sys e)"
    and "\<not> ax_value (hal_limits_get_state (env_hal e))"
    and "\<not> ctl_value (hal_control_get_state (env_hal e))"
    and "prb_connected (probe_state_of e)" and "\<not> prb_triggered (probe_state_of e)"
  shows "report_pin_state e = [''|Pn:'']
       \<and> status_line e st =
           ''<'' @ state_segment e st
           @ concat (report_position e @ report_buffer e @ report_line_number e
               @ report_feed_speed e)
           @ ''|Pn:''
           @ concat (report_changed e (sys_report (override_step e (wco_step e st)))
               @ report_plugin e (sys_report (override_step e (wco_step e st)))
               @ report_fw (sys_report (override_step e (wco_step e st))))
           @ ''>'' @ ASCII_EOL"
proof -
  have "pin_letters e = []" using assms by (simp add: pin_letters_def Let_def)
  then have p: "report_pin_state e = [''|Pn:'']" using assms by (simp add: report_pin_state_def)
  then show ?thesis using status_line_parts [of e st] by simp
qed

text \<open>
  The input of C10 exists: the machine at rest with a connected probe, block delete on and
  pin-state reporting on. Its line is \<open><Idle|MPos:0.000,0.000,0.000|Pn:>\<close> and EOL.
\<close>

theorem empty_pin_field_witness:
  "sr_pin_state (env_sr env_pins) \<and> sys_block_delete_enabled (env_sys env_pins)
   \<and> \<not> ax_value (hal_limits_get_state (env_hal env_pins))
   \<and> \<not> ctl_value (hal_control_get_state (env_hal env_pins))
   \<and> prb_connected (probe_state_of env_pins) \<and> \<not> prb_triggered (probe_state_of env_pins)
   \<and> report_pin_state env_pins = [''|Pn:'']
   \<and> status_line env_pins static_init = ''<Idle|MPos:0.000,0.000,0.000|Pn:>'' @ ASCII_EOL"
proof -
  have h: "sr_pin_state (env_sr env_pins)" "sys_block_delete_enabled (env_sys env_pins)"
    "\<not> ax_value (hal_limits_get_state (env_hal env_pins))"
    "\<not> ctl_value (hal_control_get_state (env_hal env_pins))"
    "prb_connected (probe_state_of env_pins)" "\<not> prb_triggered (probe_state_of env_pins)"
    by (simp_all add: env_pins_def plain_defs ax_value_def ctl_value_def probe_state_of_def)
  have line: "status_line env_pins static_init
      = ''<Idle|MPos:0.000,0.000,0.000|Pn:>'' @ ASCII_EOL"
    by (simp add: status_line_parts part_defs env_pins_def plain_defs pin_letters_def
        ax_value_def ctl_value_def Let_def)
  from empty_pin_field [OF h, of static_init]
  have "report_pin_state env_pins = [''|Pn:'']" by blast
  with h line show ?thesis by blast
qed

section \<open>Properties of the settings enumeration\<close>

subsection \<open>What the loops compute\<close>

lemma iterator_offsets_nonempty: "iterator_offsets s \<noteq> []"
  by (simp add: iterator_offsets_def)

lemma iterate_print_sorted:
  "iterate (print_sorted args s) offs ok out =
     (if offs = [] then ok else True,
      out @ map (\<lambda>off. (ra_human_readable args, s, off))
              (filter (\<lambda>off. \<not> (ra_group args = sd_group s \<and> ra_offset args \<noteq> off)) offs))"
  by (induction offs arbitrary: ok out) (simp_all add: print_sorted_def)

lemma iterate_print_unsorted:
  "iterate (print_unsorted args s) offs ok out =
     (if offs = [] then ok else True,
      out @ (if is_available s
             then map (\<lambda>off. (ra_human_readable args, s, off))
                    (filter (\<lambda>off. \<not> (ra_group args = sd_group s \<and> ra_offset args \<noteq> off)) offs)
             else []))"
  by (induction offs arbitrary: ok out) (simp_all add: print_unsorted_def)

lemma settings_iterator_sorted:
  "settings_iterator s (print_sorted args) out = (True, out @ rows_for args s)"
  by (simp add: settings_iterator_def iterate_print_sorted iterator_offsets_nonempty rows_for_def)

lemma settings_iterator_unsorted:
  "settings_iterator s (print_unsorted args) out =
     (True, out @ (if is_available s then rows_for args s else []))"
  by (simp add: settings_iterator_def iterate_print_unsorted iterator_offsets_nonempty rows_for_def)

lemma print_all_sorted_eq:
  "print_all_sorted args ss reported out =
     (reported \<or> ss \<noteq> [], out @ concat (map (rows_for args) ss))"
  by (induction ss arbitrary: reported out) (simp_all add: settings_iterator_sorted)

lemma print_registry_unsorted_eq:
  "print_registry_unsorted K args g ss reported out =
     (reported \<or> filter (in_scope K args g) ss \<noteq> [],
      out @ concat (map (rows_for args) (filter (\<lambda>s. in_scope K args g s \<and> is_available s) ss)))"
  by (induction ss arbitrary: reported out)
    (simp_all add: settings_iterator_unsorted in_scope_def)

lemma print_chain_unsorted_eq:
  "print_chain_unsorted K args g d reported out =
     (reported \<or> filter (in_scope K args g) (chain_settings d) \<noteq> [],
      out @ concat (map (rows_for args)
              (filter (\<lambda>s. in_scope K args g s \<and> is_available s) (chain_settings d))))"
proof (induction d arbitrary: reported out rule: chain_settings.induct)
  case (1 ss)
  then show ?case by (simp add: print_registry_unsorted_eq)
next
  case (2 ss d)
  then show ?case by (simp add: print_registry_unsorted_eq)
qed

lemma sort_key_Nil: "(sort_key f xs = []) = (xs = [])"
  by (metis length_0_conv length_sort)

text \<open>The result of the sorted path when the allocation succeeds, and of the fallback.\<close>

lemma sorted_path_eq:
  assumes "calloc (n_settings_total d)"
  shows "print_settings_details K calloc hr g d =
     (if g = Group_All K
         \<or> filter (\<lambda>s. in_scope K (make_args K hr g) g s \<and> is_available s) (chain_settings d) \<noteq> []
      then Status_OK else Status_SettingDisabled,
      concat (map (rows_for (make_args K hr g))
        (sort_key sd_id
           (filter (\<lambda>s. in_scope K (make_args K hr g) g s \<and> is_available s) (chain_settings d)))))"
proof -
  have "sort_settings_details K calloc hr g d =
     (if g = Group_All K
         \<or> filter (\<lambda>s. in_scope K (make_args K hr g) g s \<and> is_available s) (chain_settings d) \<noteq> []
      then Status_OK else Status_SettingDisabled,
      concat (map (rows_for (make_args K hr g))
        (sort_key sd_id
           (filter (\<lambda>s. in_scope K (make_args K hr g) g s \<and> is_available s) (chain_settings d)))))"
    using assms
    by (simp add: sort_settings_details_def Let_def print_all_sorted_eq in_scope_def
        sort_key_Nil)
  then show ?thesis by (simp add: print_settings_details_def)
qed

lemma fallback_path_eq:
  assumes "\<not> calloc (n_settings_total d)"
  shows "print_settings_details K calloc hr g d =
     (if g = Group_All K \<or> filter (in_scope K (make_args K hr g) g) (chain_settings d) \<noteq> []
      then Status_OK else Status_SettingDisabled,
      concat (map (rows_for (make_args K hr g))
        (filter (\<lambda>s. in_scope K (make_args K hr g) g s \<and> is_available s) (chain_settings d))))"
  using assms
  by (simp add: print_settings_details_def sort_settings_details_def Let_def
      print_chain_unsorted_eq)

lemma mset_concat_map:
  "mset xs = mset ys \<Longrightarrow> mset (concat (map f xs)) = mset (concat (map f ys))"
proof -
  assume a: "mset xs = mset ys"
  have "mset (concat (map f zs)) = (\<Sum>z\<in>#mset zs. mset (f z))" for zs
    by (induction zs) simp_all
  then show ?thesis using a by simp
qed

subsection \<open>The fallback against the sorted path\<close>

text \<open>
  Claim C3. For every registry chain (whose descriptor count fits the \<open>uint16_t\<close>
  total), group filter, availability of the descriptors and render mode, the rows (a
  descriptor with its axis offset) that the fallback renders when the allocation of the
  scratch array fails are the rows the sorted path renders when it succeeds: the same set,
  each row as many times, so that only the order may differ and nothing is dropped.
\<close>

theorem fallback_renders_same_rows:
  assumes "chain_fits d" and "calloc_ok (n_settings_total d)"
    and "\<not> calloc_fail (n_settings_total d)"
  shows "set (snd (print_settings_details K calloc_fail hr g d))
           = set (snd (print_settings_details K calloc_ok hr g d))
       \<and> mset (snd (print_settings_details K calloc_fail hr g d))
           = mset (snd (print_settings_details K calloc_ok hr g d))"
proof -
  let ?sel = "filter (\<lambda>s. in_scope K (make_args K hr g) g s \<and> is_available s) (chain_settings d)"
  have "mset (sort_key sd_id ?sel) = mset ?sel" by simp
  then have m: "mset (concat (map (rows_for (make_args K hr g)) ?sel))
      = mset (concat (map (rows_for (make_args K hr g)) (sort_key sd_id ?sel)))"
    by (intro mset_concat_map) simp
  have "mset (snd (print_settings_details K calloc_fail hr g d))
      = mset (snd (print_settings_details K calloc_ok hr g d))"
    using m
    by (simp add: fallback_path_eq [of calloc_fail d, OF assms(3)]
        sorted_path_eq [of calloc_ok d, OF assms(2)])
  then show ?thesis by (metis set_mset_mset)
qed

lemma demo_rows_all:
  "print_settings_details K_demo (\<lambda>_. True) True 0 catalog_demo =
     (Status_OK, [(True, sd_rpm, 0), (True, sd_steps, 0), (True, sd_steps, 1), (True, sd_steps, 2)])"
  "print_settings_details K_demo (\<lambda>_. False) True 0 catalog_demo =
     (Status_OK, [(True, sd_steps, 0), (True, sd_steps, 1), (True, sd_steps, 2), (True, sd_rpm, 0)])"
  by (simp_all add: sorted_path_eq fallback_path_eq in_scope_def make_args_def
      settings_normalize_group_def is_available_def rows_for_def iterator_offsets_def
      K_demo_def catalog_demo_def sd_steps_def sd_rpm_def sd_hidden_def N_AXIS_def upt_rec)

text \<open>
  C3 on the small catalogue, all settings requested: the sorted path renders ids 30, 100,
  101, 102 in this order, the fallback renders 100, 101, 102, 30.
\<close>

theorem fallback_renders_same_rows_witness:
  "chain_fits catalog_demo \<and> (\<lambda>_. True) (n_settings_total catalog_demo)
   \<and> \<not> (\<lambda>_. False) (n_settings_total catalog_demo)
   \<and> snd (print_settings_details K_demo (\<lambda>_. True) True 0 catalog_demo)
       = [(True, sd_rpm, 0), (True, sd_steps, 0), (True, sd_steps, 1), (True, sd_steps, 2)]
   \<and> snd (print_settings_details K_demo (\<lambda>_. False) True 0 catalog_demo)
       = [(True, sd_steps, 0), (True, sd_steps, 1), (True, sd_steps, 2), (True, sd_rpm, 0)]
   \<and> set (snd (print_settings_details K_demo (\<lambda>_. False) True 0 catalog_demo))
       = set (snd (print_settings_details K_demo (\<lambda>_. True) True 0 catalog_demo))"
proof -
  have f: "chain_fits catalog_demo" by (simp add: chain_fits_def catalog_demo_def)
  from fallback_renders_same_rows [OF f, of "\<lambda>_. True" "\<lambda>_. False" K_demo True 0]
  have "set (snd (print_settings_details K_demo (\<lambda>_. False) True 0 catalog_demo))
       = set (snd (print_settings_details K_demo (\<lambda>_. True) True 0 catalog_demo))" by simp
  with f show ?thesis by (simp add: demo_rows_all)
qed

subsection \<open>One axis of the axis settings\<close>

lemma normalize_axis_group:
  "k < N_AXIS \<Longrightarrow> settings_normalize_group K (Group_Axis0 K + k) = Group_Axis0 K"
  by (simp add: settings_normalize_group_def)

lemma rows_for_axis:
  assumes "sd_group s = ra_group args"
  shows "list_all (\<lambda>(hr, s', off). off = ra_offset args \<and> sd_group s' = ra_group args)
           (rows_for args s)"
  using assms by (auto simp add: rows_for_def list_all_iff)

lemma concat_rows_axis:
  assumes "\<forall>s\<in>set ss. sd_group s = ra_group args"
  shows "list_all (\<lambda>(hr, s', off). off = ra_offset args \<and> sd_group s' = ra_group args)
           (concat (map (rows_for args) ss))"
  using assms
proof (induction ss)
  case Nil
  then show ?case by simp
next
  case (Cons s ss)
  then show ?case using rows_for_axis [of s args] by simp
qed

text \<open>
  Claim C7. When the settings of one axis are requested (the group \<open>Group_Axis0 + k\<close> with
  \<open>k < N_AXIS\<close>), every row rendered has the offset \<open>k\<close> and belongs to the axis-settings
  group, whatever the catalogue holds and whether the allocation succeeds (the sorted path)
  or fails (the fallback): \<open>calloc\<close> is arbitrary.
\<close>

theorem axis_rows_have_requested_offset:
  assumes "chain_fits d" and "k < N_AXIS" and "Group_Axis0 K + k \<noteq> Group_All K"
  shows "list_all (\<lambda>(hr', s, off). off = k \<and> sd_group s = Group_Axis0 K)
           (snd (print_settings_details K calloc hr (Group_Axis0 K + k) d))"
proof -
  let ?g = "Group_Axis0 K + k"
  let ?args = "make_args K hr ?g"
  let ?sel = "filter (\<lambda>s. in_scope K ?args ?g s \<and> is_available s) (chain_settings d)"
  have a: "ra_group ?args = Group_Axis0 K" "ra_offset ?args = k"
    using assms(2) by (simp_all add: make_args_def normalize_axis_group)
  have sel: "\<forall>s\<in>set ?sel. sd_group s = ra_group ?args"
    using assms(3) by (simp add: in_scope_def)
  have srt: "\<forall>s\<in>set (sort_key sd_id ?sel). sd_group s = ra_group ?args"
    using sel by simp
  show ?thesis
  proof (cases "calloc (n_settings_total d)")
    case True
    then show ?thesis
      using concat_rows_axis [OF srt] a by (simp add: sorted_path_eq)
  next
    case False
    then show ?thesis
      using concat_rows_axis [OF sel] a by (simp add: fallback_path_eq)
  qed
qed

lemma demo_rows_axis1:
  "print_settings_details K_demo (\<lambda>_. True) True 41 catalog_demo = (Status_OK, [(True, sd_steps, 1)])"
  "print_settings_details K_demo (\<lambda>_. False) True 41 catalog_demo = (Status_OK, [(True, sd_steps, 1)])"
  by (simp_all add: sorted_path_eq fallback_path_eq in_scope_def make_args_def
      settings_normalize_group_def is_available_def rows_for_def iterator_offsets_def
      K_demo_def catalog_demo_def sd_steps_def sd_rpm_def sd_hidden_def N_AXIS_def upt_rec)

text \<open>
  C7 on the small catalogue: the settings of axis 1 are requested, the per-axis setting 100
  is in the catalogue with three repetitions, and both paths render the row of offset 1
  only.
\<close>

theorem axis_rows_have_requested_offset_witness:
  "chain_fits catalog_demo \<and> (1::nat) < N_AXIS \<and> Group_Axis0 K_demo + 1 \<noteq> Group_All K_demo
   \<and> list_all (\<lambda>(hr', s, off). off = 1 \<and> sd_group s = Group_Axis0 K_demo)
        (snd (print_settings_details K_demo (\<lambda>_. True) True (Group_Axis0 K_demo + 1) catalog_demo))
   \<and> list_all (\<lambda>(hr', s, off). off = 1 \<and> sd_group s = Group_Axis0 K_demo)
        (snd (print_settings_details K_demo (\<lambda>_. False) True (Group_Axis0 K_demo + 1) catalog_demo))
   \<and> snd (print_settings_details K_demo (\<lambda>_. True) True 41 catalog_demo) = [(True, sd_steps, 1)]
   \<and> snd (print_settings_details K_demo (\<lambda>_. False) True 41 catalog_demo) = [(True, sd_steps, 1)]"
proof -
  have f: "chain_fits catalog_demo" by (simp add: chain_fits_def catalog_demo_def)
  have k: "(1::nat) < N_AXIS" by (simp add: N_AXIS_def)
  have g: "Group_Axis0 K_demo + 1 \<noteq> Group_All K_demo" by (simp add: K_demo_def)
  note t = axis_rows_have_requested_offset [OF f k g]
  from t [of "\<lambda>_. True" True] t [of "\<lambda>_. False" True] f k g show ?thesis
    by (simp add: demo_rows_axis1)
qed

subsection \<open>The status returned\<close>

text \<open>
  What holds of the status: the allocation failure never reaches the caller, a request for
  all settings is always OK, and a request that renders a row is OK.
\<close>

lemma settings_status:
  "fst (report_settings_details K calloc get hr sid g d) \<noteq> Status_Unhandled"
  "sid = Setting_SettingsAll K \<Longrightarrow> g = Group_All K \<Longrightarrow>
     fst (report_settings_details K calloc get hr sid g d) = Status_OK"
  "snd (report_settings_details K calloc get hr sid g d) \<noteq> [] \<Longrightarrow>
     fst (report_settings_details K calloc get hr sid g d) = Status_OK"
proof -
  show "fst (report_settings_details K calloc get hr sid g d) \<noteq> Status_Unhandled"
    by (cases "calloc (n_settings_total d)")
      (simp_all add: report_settings_details_def sorted_path_eq fallback_path_eq
        split: option.splits)
  show "sid = Setting_SettingsAll K \<Longrightarrow> g = Group_All K \<Longrightarrow>
     fst (report_settings_details K calloc get hr sid g d) = Status_OK"
    by (cases "calloc (n_settings_total d)")
      (simp_all add: report_settings_details_def sorted_path_eq fallback_path_eq)
  show "snd (report_settings_details K calloc get hr sid g d) \<noteq> [] \<Longrightarrow>
     fst (report_settings_details K calloc get hr sid g d) = Status_OK"
    by (cases "calloc (n_settings_total d)")
      (auto simp add: report_settings_details_def sorted_path_eq fallback_path_eq sort_key_Nil
        filter_empty_conv split: option.splits if_splits)
qed

text \<open>
  Claim C8 fails on the code. The group 7 of the small catalogue holds one descriptor,
  which is not available, so no row is rendered on either path. When the allocation
  succeeds the status is \<open>Status_SettingDisabled\<close>, as the claim says; when it fails, the
  fallback returns \<open>Status_OK\<close>: it sets \<open>reported\<close> from the iterator's result, and
  \<open>print_unsorted\<close> returns true for a descriptor it skips as unavailable.
\<close>

theorem fallback_reports_ok_for_empty_group:
  "report_settings_details K_demo (\<lambda>_. False) (\<lambda>_. None) True (Setting_SettingsAll K_demo) 7
      catalog_demo = (Status_OK, [])
   \<and> report_settings_details K_demo (\<lambda>_. True) (\<lambda>_. None) True (Setting_SettingsAll K_demo) 7
      catalog_demo = (Status_SettingDisabled, [])"
  by (simp add: report_settings_details_def sorted_path_eq fallback_path_eq in_scope_def
      make_args_def settings_normalize_group_def is_available_def rows_for_def
      iterator_offsets_def K_demo_def catalog_demo_def sd_steps_def sd_rpm_def sd_hidden_def
      N_AXIS_def)

section \<open>Properties of the odometer's hooks\<close>

lemma odometer_init_installs:
  assumes "nvs = NVS_EEPROM \<or> nvs = NVS_FRAM"
    and "odometer_init nvs True read_ok h st = (h', st', ev)"
  shows "stepper_pulse_start st' = hal_stepper_pulse_start h"
    "on_unknown_sys_command st' = grbl_on_unknown_sys_command h"
    "on_state_change st' = grbl_on_state_change h"
    "spindle_set_state st' = hal_spindle_set_state h"
    "settings_changed st' = hal_settings_changed h"
    "on_report_options st' = grbl_on_report_options h"
    "h' = \<lparr> grbl_on_unknown_sys_command = Some Odometer_fn,
            grbl_on_state_change = Some Odometer_fn, grbl_on_report_options = Some Odometer_fn,
            hal_settings_changed = Some Odometer_fn, hal_spindle_set_state = Some Odometer_fn,
            hal_stepper_pulse_start = Some Odometer_fn \<rparr>"
  using assms by (auto simp add: odometer_init_def)

lemma own_command_no_call: "\<not> calls f (snd (own_command prev_ok line))"
  by (simp add: own_command_def calls_def Let_def)

lemma line1_of_tl: "tl line = c # r \<Longrightarrow> line1 line = Some c"
  by (cases line) (simp_all add: line1_def)

text \<open>The odometer keeps exactly three commands to itself.\<close>

lemma own_command_unhandled_iff:
  "(fst (own_command prev_ok line) = Status_Unhandled)
     = (tl line \<notin> {''ODOMETERS'', ''ODOMETERS=PREV'', ''ODOMETERS=RST''})"
proof (cases "line1 line = Some CHR ''O''")
  case True
  then show ?thesis by (simp add: own_command_def Let_def)
next
  case False
  then have "tl line \<notin> {''ODOMETERS'', ''ODOMETERS=PREV'', ''ODOMETERS=RST''}"
    using line1_of_tl [of line "CHR ''O''"] by auto
  then show ?thesis using False by (simp add: own_command_def)
qed

lemma own_command_unhandled:
  assumes "tl line \<notin> {''ODOMETERS'', ''ODOMETERS=PREV'', ''ODOMETERS=RST''}"
  shows "own_command prev_ok line = (Status_Unhandled, [])"
  using assms by (simp add: own_command_def Let_def)

lemma commandExecute_calls:
  assumes "on_unknown_sys_command st = Some f"
  shows "calls f (snd (commandExecute prev_ok ext_status line st))
           = (tl line \<notin> {''ODOMETERS'', ''ODOMETERS=PREV'', ''ODOMETERS=RST''})"
proof (cases "own_command prev_ok line")
  case (Pair retval ev)
  then have "\<not> calls f ev" using own_command_no_call [of f prev_ok line] by simp
  moreover have "(retval = Status_Unhandled)
      = (tl line \<notin> {''ODOMETERS'', ''ODOMETERS=PREV'', ''ODOMETERS=RST''})"
    using own_command_unhandled_iff [of prev_ok line] Pair by simp
  ultimately show ?thesis using assms Pair by (simp add: commandExecute_def calls_def)
qed

lemma commandExecute_passed_on:
  assumes "on_unknown_sys_command st = Some f"
    and "tl line \<notin> {''ODOMETERS'', ''ODOMETERS=PREV'', ''ODOMETERS=RST''}"
  shows "commandExecute prev_ok ext_status line st = (ext_status, [Call f])"
  using assms(1) own_command_unhandled [OF assms(2), of prev_ok]
  by (simp add: commandExecute_def)

subsection \<open>What the handlers do to the saved handlers\<close>

lemma onStateChanged_saved:
  "saved_handlers (fst (onStateChanged state ticks s)) = saved_handlers s"
  by (simp add: onStateChanged_def saved_handlers_def split_beta)

lemma onStateChanged_calls:
  "on_state_change s = Some f \<Longrightarrow> calls f (snd (onStateChanged state ticks s))"
  by (simp add: onStateChanged_def calls_def split_beta)

lemma stepperPulseStart_chained:
  assumes "stepper_pulse_start s = Some f"
  shows "\<exists>s2 ev2. stepperPulseStart x y z s = Inr (s2, ev2) \<and> calls f ev2
           \<and> saved_handlers s2 = saved_handlers s"
  using assms by (simp add: stepperPulseStart_def calls_def Let_def saved_handlers_def)

lemma onSpindleSetState_chained:
  assumes "spindle_set_state s = Some f"
  shows "\<exists>s2 ev2. onSpindleSetState on ticks s = Inr (s2, ev2) \<and> calls f ev2
           \<and> saved_handlers s2 = saved_handlers s"
  using assms by (simp add: onSpindleSetState_def calls_def saved_handlers_def)

lemma onSettingsChanged_chained:
  assumes "settings_changed s = Some f"
  shows "\<exists>h2 s2 ev2. onSettingsChanged ext hk s = Inr (h2, s2, ev2) \<and> calls f ev2
           \<and> h2 = (ext hk)\<lparr> hal_spindle_set_state := Some Odometer_fn,
                             hal_stepper_pulse_start := Some Odometer_fn \<rparr>
           \<and> on_unknown_sys_command s2 = on_unknown_sys_command s
           \<and> on_state_change s2 = on_state_change s
           \<and> settings_changed s2 = settings_changed s
           \<and> on_report_options s2 = on_report_options s
           \<and> spindle_set_state s2
               = (if hal_spindle_set_state (ext hk) = Some Odometer_fn then spindle_set_state s
                  else hal_spindle_set_state (ext hk))
           \<and> stepper_pulse_start s2
               = (if hal_stepper_pulse_start (ext hk) = Some Odometer_fn
                  then stepper_pulse_start s else hal_stepper_pulse_start (ext hk))"
  using assms by (simp add: onSettingsChanged_def calls_def Let_def)

lemma onReportOptions_chained:
  assumes "on_report_options s = Some f"
  shows "\<exists>ev2. onReportOptions s = Inr ev2 \<and> calls f ev2"
  using assms by (simp add: onReportOptions_def calls_def)

text \<open>
  Claim C9, as amended. When \<open>odometer_init\<close> installs its hooks, each of the six entry
  points (unknown system command, state change, report options, settings changed, spindle
  set-state, stepper pulse start) is saved in the plugin's static of that entry point and
  replaced by the plugin's handler. On any statics \<open>s\<close> that hold these saved handlers,
  each handler calls the saved handler when one was installed: on every call for state
  change, stepper pulse start, spindle set-state, settings changed and report options, and
  for the unknown system command exactly when the line after its first character is none
  of \<open>ODOMETERS\<close>, \<open>ODOMETERS=PREV\<close> and \<open>ODOMETERS=RST\<close>; such a line is answered by
  the saved handler alone. The handlers for state change, stepper pulse start and spindle
  set-state leave the six saved handlers as they are (those for report options and unknown
  system commands have no access to them in the model, as in the code). The handler for
  settings changed leaves four of them, and takes the spindle set-state and stepper pulse
  start entry points back: where the saved settings-changed handler has put another
  function, that function becomes the saved handler.
\<close>

theorem hooks_saved_and_chained:
  assumes "nvs = NVS_EEPROM \<or> nvs = NVS_FRAM"
    and "odometer_init nvs True read_ok h st = (h', st', ev)"
    and "saved_handlers s = saved_handlers st'"
  shows "stepper_pulse_start st' = hal_stepper_pulse_start h
       \<and> on_unknown_sys_command st' = grbl_on_unknown_sys_command h
       \<and> on_state_change st' = grbl_on_state_change h
       \<and> spindle_set_state st' = hal_spindle_set_state h
       \<and> settings_changed st' = hal_settings_changed h
       \<and> on_report_options st' = grbl_on_report_options h
       \<and> hal_stepper_pulse_start h' = Some Odometer_fn
       \<and> grbl_on_unknown_sys_command h' = Some Odometer_fn
       \<and> grbl_on_state_change h' = Some Odometer_fn
       \<and> hal_spindle_set_state h' = Some Odometer_fn
       \<and> hal_settings_changed h' = Some Odometer_fn
       \<and> grbl_on_report_options h' = Some Odometer_fn
       \<and> (\<forall>f. grbl_on_state_change h = Some f \<longrightarrow>
            calls f (snd (onStateChanged state ticks s)))
       \<and> saved_handlers (fst (onStateChanged state ticks s)) = saved_handlers st'
       \<and> (\<forall>f. hal_stepper_pulse_start h = Some f \<longrightarrow>
            (\<exists>s2 ev2. stepperPulseStart x y z s = Inr (s2, ev2) \<and> calls f ev2
               \<and> saved_handlers s2 = saved_handlers st'))
       \<and> (\<forall>f. hal_spindle_set_state h = Some f \<longrightarrow>
            (\<exists>s2 ev2. onSpindleSetState on ticks s = Inr (s2, ev2) \<and> calls f ev2
               \<and> saved_handlers s2 = saved_handlers st'))
       \<and> (\<forall>f. hal_settings_changed h = Some f \<longrightarrow>
            (\<exists>h2 s2 ev2. onSettingsChanged ext hk s = Inr (h2, s2, ev2) \<and> calls f ev2
               \<and> h2 = (ext hk)\<lparr> hal_spindle_set_state := Some Odometer_fn,
                                 hal_stepper_pulse_start := Some Odometer_fn \<rparr>
               \<and> on_unknown_sys_command s2 = grbl_on_unknown_sys_command h
               \<and> on_state_change s2 = grbl_on_state_change h
               \<and> settings_changed s2 = hal_settings_changed h
               \<and> on_report_options s2 = grbl_on_report_options h
               \<and> spindle_set_state s2
                   = (if hal_spindle_set_state (ext hk) = Some Odometer_fn
                      then hal_spindle_set_state h else hal_spindle_set_state (ext hk))
               \<and> stepper_pulse_start s2
                   = (if hal_stepper_pulse_start (ext hk) = Some Odometer_fn
                      then hal_stepper_pulse_start h else hal_stepper_pulse_start (ext hk))))
       \<and> (\<forall>f. grbl_on_report_options h = Some f \<longrightarrow>
            (\<exists>ev2. onReportOptions s = Inr ev2 \<and> calls f ev2))
       \<and> (\<forall>f. grbl_on_unknown_sys_command h = Some f \<longrightarrow>
            calls f (snd (commandExecute prev_ok ext_status line s))
              = (tl line \<notin> {''ODOMETERS'', ''ODOMETERS=PREV'', ''ODOMETERS=RST''})
            \<and> (tl line \<notin> {''ODOMETERS'', ''ODOMETERS=PREV'', ''ODOMETERS=RST''} \<longrightarrow>
                 commandExecute prev_ok ext_status line s = (ext_status, [Call f])))"
proof -
  note i = odometer_init_installs [OF assms(1) assms(2)]
  have s: "stepper_pulse_start s = hal_stepper_pulse_start h"
    "on_unknown_sys_command s = grbl_on_unknown_sys_command h"
    "on_state_change s = grbl_on_state_change h"
    "spindle_set_state s = hal_spindle_set_state h"
    "settings_changed s = hal_settings_changed h"
    "on_report_options s = grbl_on_report_options h"
    using assms(3) i(1-6) by (simp_all add: saved_handlers_def)
  have hooks: "hal_stepper_pulse_start h' = Some Odometer_fn
       \<and> grbl_on_unknown_sys_command h' = Some Odometer_fn
       \<and> grbl_on_state_change h' = Some Odometer_fn
       \<and> hal_spindle_set_state h' = Some Odometer_fn
       \<and> hal_settings_changed h' = Some Odometer_fn
       \<and> grbl_on_report_options h' = Some Odometer_fn"
    by (simp add: i(7))
  have c1: "\<forall>f. grbl_on_state_change h = Some f \<longrightarrow>
      calls f (snd (onStateChanged state ticks s))"
    using s(3) onStateChanged_calls [of s _ state ticks] by simp
  have p1: "saved_handlers (fst (onStateChanged state ticks s)) = saved_handlers st'"
    using onStateChanged_saved [of state ticks s] assms(3) by simp
  have c2: "\<forall>f. hal_stepper_pulse_start h = Some f \<longrightarrow>
      (\<exists>s2 ev2. stepperPulseStart x y z s = Inr (s2, ev2) \<and> calls f ev2
         \<and> saved_handlers s2 = saved_handlers st')"
    using s(1) stepperPulseStart_chained [of s _ x y z] assms(3) by simp
  have c3: "\<forall>f. hal_spindle_set_state h = Some f \<longrightarrow>
      (\<exists>s2 ev2. onSpindleSetState on ticks s = Inr (s2, ev2) \<and> calls f ev2
         \<and> saved_handlers s2 = saved_handlers st')"
    using s(4) onSpindleSetState_chained [of s _ on ticks] assms(3) by simp
  have c4: "\<forall>f. hal_settings_changed h = Some f \<longrightarrow>
      (\<exists>h2 s2 ev2. onSettingsChanged ext hk s = Inr (h2, s2, ev2) \<and> calls f ev2
         \<and> h2 = (ext hk)\<lparr> hal_spindle_set_state := Some Odometer_fn,
                           hal_stepper_pulse_start := Some Odometer_fn \<rparr>
         \<and> on_unknown_sys_command s2 = grbl_on_unknown_sys_command h
         \<and> on_state_change s2 = grbl_on_state_change h
         \<and> settings_changed s2 = hal_settings_changed h
         \<and> on_report_options s2 = grbl_on_report_options h
         \<and> spindle_set_state s2
             = (if hal_spindle_set_state (ext hk) = Some Odometer_fn
                then hal_spindle_set_state h else hal_spindle_set_state (ext hk))
         \<and> stepper_pulse_start s2
             = (if hal_stepper_pulse_start (ext hk) = Some Odometer_fn
                then hal_stepper_pulse_start h else hal_stepper_pulse_start (ext hk)))"
  proof (intro allI impI)
    fix f assume "hal_settings_changed h = Some f"
    then have "settings_changed s = Some f" using s(5) by simp
    from onSettingsChanged_chained [OF this, of ext hk]
    show "\<exists>h2 s2 ev2. onSettingsChanged ext hk s = Inr (h2, s2, ev2) \<and> calls f ev2
         \<and> h2 = (ext hk)\<lparr> hal_spindle_set_state := Some Odometer_fn,
                           hal_stepper_pulse_start := Some Odometer_fn \<rparr>
         \<and> on_unknown_sys_command s2 = grbl_on_unknown_sys_command h
         \<and> on_state_change s2 = grbl_on_state_change h
         \<and> settings_changed s2 = hal_settings_changed h
         \<and> on_report_options s2 = grbl_on_report_options h
         \<and> spindle_set_state s2
             = (if hal_spindle_set_state (ext hk) = Some Odometer_fn
                then hal_spindle_set_state h else hal_spindle_set_state (ext hk))
         \<and> stepper_pulse_start s2
             = (if hal_stepper_pulse_start (ext hk) = Some Odometer_fn
                then hal_stepper_pulse_start h else hal_stepper_pulse_start (ext hk))"
      by (simp only: s)
  qed
  have c5: "\<forall>f. grbl_on_report_options h = Some f \<longrightarrow>
      (\<exists>ev2. onReportOptions s = Inr ev2 \<and> calls f ev2)"
    using s(6) onReportOptions_chained [of s] by simp
  have c6: "\<forall>f. grbl_on_unknown_sys_command h = Some f \<longrightarrow>
      calls f (snd (commandExecute prev_ok ext_status line s))
        = (tl line \<notin> {''ODOMETERS'', ''ODOMETERS=PREV'', ''ODOMETERS=RST''})
      \<and> (tl line \<notin> {''ODOMETERS'', ''ODOMETERS=PREV'', ''ODOMETERS=RST''} \<longrightarrow>
           commandExecute prev_ok ext_status line s = (ext_status, [Call f]))"
    using s(2) commandExecute_calls [of s _ prev_ok ext_status line]
      commandExecute_passed_on [of s _ line prev_ok ext_status] by simp
  from i(1-6) hooks c1 p1 c2 c3 c4 c5 c6 show ?thesis by blast
qed

lemma odometer_installed_eq:
  "odometer_init NVS_EEPROM True True hooks_demo odometer_zero =
     (hooks_installed, odometer_installed, [])"
  by (simp add: odometer_installed_def hooks_installed_def odometer_init_def)

text \<open>
  C9 where every entry point held a handler before, on the statics of the installed
  odometer after a first state change. These still hold the saved handlers: the handlers
  for state change and stepper pulse start call the ones they replaced, the command handler
  passes \<open>$OTHER\<close> on and keeps \<open>$ODOMETERS=RST\<close>, and when the saved settings-changed
  handler has put another function into the spindle set-state entry point, that function
  becomes the saved spindle handler.
\<close>

theorem hooks_saved_and_chained_witness:
  "(NVS_EEPROM = NVS_EEPROM \<or> NVS_EEPROM = NVS_FRAM)
   \<and> odometer_init NVS_EEPROM True True hooks_demo odometer_zero
       = (hooks_installed, odometer_installed, [])
   \<and> saved_handlers odometer_cycling = saved_handlers odometer_installed
   \<and> on_state_change odometer_installed = Some (Other_fn 2)
   \<and> calls (Other_fn 2) (snd (onStateChanged STATE_IDLE 9 odometer_cycling))
   \<and> (\<exists>s2 ev2. stepperPulseStart True False False odometer_cycling = Inr (s2, ev2)
         \<and> calls (Other_fn 6) ev2 \<and> saved_handlers s2 = saved_handlers odometer_installed)
   \<and> tl ''$OTHER'' \<notin> {''ODOMETERS'', ''ODOMETERS=PREV'', ''ODOMETERS=RST''}
   \<and> commandExecute True Status_OK ''$OTHER'' odometer_cycling = (Status_OK, [Call (Other_fn 1)])
   \<and> \<not> calls (Other_fn 1) (snd (commandExecute True Status_OK ''$ODOMETERS=RST'' odometer_cycling))
   \<and> (\<exists>h2 s2 ev2. onSettingsChanged ext_demo hooks_installed odometer_cycling = Inr (h2, s2, ev2)
         \<and> calls (Other_fn 4) ev2 \<and> hal_spindle_set_state h2 = Some Odometer_fn
         \<and> spindle_set_state s2 = Some (Other_fn 7)
         \<and> stepper_pulse_start s2 = Some (Other_fn 6))"
proof -
  have n: "NVS_EEPROM = NVS_EEPROM \<or> NVS_EEPROM = NVS_FRAM" by simp
  have p: "grbl_on_state_change hooks_demo = Some (Other_fn 2)"
    "grbl_on_unknown_sys_command hooks_demo = Some (Other_fn 1)"
    "hal_stepper_pulse_start hooks_demo = Some (Other_fn 6)"
    "hal_settings_changed hooks_demo = Some (Other_fn 4)"
    "hal_spindle_set_state hooks_demo = Some (Other_fn 5)"
    by (simp_all add: hooks_demo_def)
  have e: "hal_spindle_set_state (ext_demo hooks_installed) = Some (Other_fn 7)"
    "hal_stepper_pulse_start (ext_demo hooks_installed) = Some Odometer_fn"
    by (simp_all add: ext_demo_def hooks_installed_def odometer_init_def)
  have u: "tl ''$OTHER'' \<notin> {''ODOMETERS'', ''ODOMETERS=PREV'', ''ODOMETERS=RST''}"
    "\<not> tl ''$ODOMETERS=RST'' \<notin> {''ODOMETERS'', ''ODOMETERS=PREV'', ''ODOMETERS=RST''}"
    by simp_all
  note t0 = hooks_saved_and_chained [OF n odometer_installed_eq refl]
  from t0 [of STATE_CYCLE 5]
  have k: "saved_handlers odometer_cycling = saved_handlers odometer_installed"
    "on_state_change odometer_installed = Some (Other_fn 2)"
    using p by (simp_all add: odometer_cycling_def)
  note t = hooks_saved_and_chained [OF n odometer_installed_eq k(1)]
  from t [of STATE_IDLE 9] p
  have a: "calls (Other_fn 2) (snd (onStateChanged STATE_IDLE 9 odometer_cycling))" by blast
  from t [where x = True and y = False and z = False] p
  have b: "\<exists>s2 ev2. stepperPulseStart True False False odometer_cycling = Inr (s2, ev2)
      \<and> calls (Other_fn 6) ev2 \<and> saved_handlers s2 = saved_handlers odometer_installed" by blast
  from t [where prev_ok = True and ext_status = Status_OK and line = "''$OTHER''"] p(2) u(1)
  have c: "commandExecute True Status_OK ''$OTHER'' odometer_cycling
      = (Status_OK, [Call (Other_fn 1)])" by blast
  from t [where prev_ok = True and ext_status = Status_OK and line = "''$ODOMETERS=RST''"]
    p(2) u(2)
  have d: "\<not> calls (Other_fn 1)
      (snd (commandExecute True Status_OK ''$ODOMETERS=RST'' odometer_cycling))" by blast
  have "\<forall>f. hal_settings_changed hooks_demo = Some f \<longrightarrow>
      (\<exists>h2 s2 ev2. onSettingsChanged ext_demo hooks_installed odometer_cycling
           = Inr (h2, s2, ev2) \<and> calls f ev2
         \<and> h2 = (ext_demo hooks_installed)\<lparr> hal_spindle_set_state := Some Odometer_fn,
                                              hal_stepper_pulse_start := Some Odometer_fn \<rparr>
         \<and> on_unknown_sys_command s2 = grbl_on_unknown_sys_command hooks_demo
         \<and> on_state_change s2 = grbl_on_state_change hooks_demo
         \<and> settings_changed s2 = hal_settings_changed hooks_demo
         \<and> on_report_options s2 = grbl_on_report_options hooks_demo
         \<and> spindle_set_state s2
             = (if hal_spindle_set_state (ext_demo hooks_installed) = Some Odometer_fn
                then hal_spindle_set_state hooks_demo
                else hal_spindle_set_state (ext_demo hooks_installed))
         \<and> stepper_pulse_start s2
             = (if hal_stepper_pulse_start (ext_demo hooks_installed) = Some Odometer_fn
                then hal_stepper_pulse_start hooks_demo
                else hal_stepper_pulse_start (ext_demo hooks_installed)))"
    using t [where state = STATE_IDLE and ticks = 0 and x = True and y = True and z = True
        and on = True and ext = ext_demo and hk = hooks_installed and prev_ok = True
        and ext_status = Status_OK and line = "''$X''"]
    by - (elim conjE, assumption)
  with p(4) obtain h2 s2 ev2 where
    g: "onSettingsChanged ext_demo hooks_installed odometer_cycling = Inr (h2, s2, ev2)"
      "calls (Other_fn 4) ev2"
      "h2 = (ext_demo hooks_installed)\<lparr> hal_spindle_set_state := Some Odometer_fn,
                                           hal_stepper_pulse_start := Some Odometer_fn \<rparr>"
      "spindle_set_state s2
         = (if hal_spindle_set_state (ext_demo hooks_installed) = Some Odometer_fn
            then hal_spindle_set_state hooks_demo
            else hal_spindle_set_state (ext_demo hooks_installed))"
      "stepper_pulse_start s2
         = (if hal_stepper_pulse_start (ext_demo hooks_installed) = Some Odometer_fn
            then hal_stepper_pulse_start hooks_demo
            else hal_stepper_pulse_start (ext_demo hooks_installed))"
    by blast
  have "hal_spindle_set_state h2 = Some Odometer_fn" using g(3) by simp
  moreover have "spindle_set_state s2 = Some (Other_fn 7)" using g(4) e(1) by simp
  moreover have "stepper_pulse_start s2 = Some (Other_fn 6)" using g(5) e(2) p(3) by simp
  ultimately
  have f: "\<exists>h2 s2 ev2. onSettingsChanged ext_demo hooks_installed odometer_cycling
        = Inr (h2, s2, ev2)
      \<and> calls (Other_fn 4) ev2 \<and> hal_spindle_set_state h2 = Some Odometer_fn
      \<and> spindle_set_state s2 = Some (Other_fn 7)
      \<and> stepper_pulse_start s2 = Some (Other_fn 6)"
    using g(1) g(2) by blast
  from n odometer_installed_eq k a b u(1) c d f show ?thesis by blast
qed

text \<open>
  Counterexample to C9 as stated: a handler for unknown system commands was installed
  before the odometer, and for the odometer's own command \<open>$ODOMETERS\<close> the odometer's
  handler returns without calling it.
\<close>

theorem own_command_not_passed_on:
  "on_unknown_sys_command odometer_installed = Some (Other_fn 1)
   \<and> commandExecute True Status_Unhandled ''$ODOMETERS'' odometer_installed
       = (Status_OK, [Report_odometers])
   \<and> \<not> calls (Other_fn 1)
        (snd (commandExecute True Status_Unhandled ''$ODOMETERS'' odometer_installed))"
  by (simp add: odometer_installed_def odometer_init_def hooks_demo_def commandExecute_def
      own_command_def line1_def calls_def Let_def)

end
